theory Spec2Isabelle
  imports Complex_Main "HOL-Library.Multiset"
begin

section \<open>The redemption store: table \<open>qrs\<close> and its four prepared statements\<close>

text \<open>
  Both server variants of \<open>src/index.js\<close> (the ethers variant, lines 1-187, and the
  thirdweb Engine variant, lines 188-382) create the same table:
  \<^verbatim>\<open>
  CREATE TABLE IF NOT EXISTS qrs (
    id TEXT PRIMARY KEY, created_at INTEGER NOT NULL,
    used_at INTEGER, used_by TEXT, tx_hash TEXT );
  \<close>
  (the last column is called \<open>transaction_id\<close> in the Engine variant; it is the same
  column under another name).  A row is a record; a nullable column is an \<open>option\<close>,
  \<open>None\<close> being SQL \<open>NULL\<close>.  The table is the list of its rows in insertion order.
  Strings are \<open>string\<close>; \<open>Date.now()\<close> is an \<open>int\<close> (milliseconds since the epoch).
  The third source file is a health-check server with no store and no claim handler; nothing
  of it is modelled.
\<close>

record qr_row =
  row_id :: string
  created_at :: int
  used_at :: "int option"
  used_by :: "string option"
  tx_hash :: "string option"

type_synonym qr_table = "qr_row list"

text \<open>The \<open>PRIMARY KEY\<close> constraint on \<open>id\<close>: no two rows share an id.\<close>

definition primary_key :: "qr_table \<Rightarrow> bool" where
  "primary_key tbl = distinct (map row_id tbl)"

text \<open>
  \<^verbatim>\<open>INSERT OR IGNORE INTO qrs (id, created_at) VALUES (?, ?)\<close>:
  a row whose id is already in the table is ignored; otherwise the row is appended with the
  three unnamed columns \<open>NULL\<close>.  The second component is \<open>.changes\<close> of the run.
\<close>

definition new_row :: "string \<Rightarrow> int \<Rightarrow> qr_row" where
  "new_row i t = \<lparr>row_id = i, created_at = t, used_at = None, used_by = None, tx_hash = None\<rparr>"

definition insertQR :: "qr_table \<Rightarrow> string \<Rightarrow> int \<Rightarrow> qr_table \<times> nat" where
  "insertQR tbl i t =
     (if i \<in> set (map row_id tbl) then (tbl, 0) else (tbl @ [new_row i t], 1))"

text \<open>\<^verbatim>\<open>SELECT * FROM qrs WHERE id = ?\<close> with \<open>.get\<close>: the first matching row, if any.\<close>

definition getQR :: "qr_table \<Rightarrow> string \<Rightarrow> qr_row option" where
  "getQR tbl i = find (\<lambda>r. row_id r = i) tbl"

text \<open>
  \<^verbatim>\<open>UPDATE qrs SET used_at=?, used_by=?, tx_hash=? WHERE id=? AND used_at IS NULL\<close>:
  every row that satisfies the \<open>WHERE\<close> clause gets the three columns; \<open>.changes\<close> is the
  number of such rows.  The parameters are in the statement's order; the only call sites
  bind \<open>Date.now()\<close>, the wallet address and the transaction reference, none of them
  \<open>NULL\<close>.
\<close>

definition markUsed_where :: "string \<Rightarrow> qr_row \<Rightarrow> bool" where
  "markUsed_where i r = (row_id r = i \<and> used_at r = None)"

definition markUsed_set :: "int \<Rightarrow> string \<Rightarrow> string \<Rightarrow> qr_row \<Rightarrow> qr_row" where
  "markUsed_set t w h r = r\<lparr>used_at := Some t, used_by := Some w, tx_hash := Some h\<rparr>"

definition markUsed :: "qr_table \<Rightarrow> int \<Rightarrow> string \<Rightarrow> string \<Rightarrow> string \<Rightarrow> qr_table \<times> nat" where
  "markUsed tbl t w h i =
     (map (\<lambda>r. if markUsed_where i r then markUsed_set t w h r else r) tbl,
      length (filter (markUsed_where i) tbl))"

text \<open>
  \<^verbatim>\<open>SELECT * FROM qrs ORDER BY created_at DESC LIMIT ?\<close>.  SQL fixes the order of the
  result only as far as the \<open>ORDER BY\<close> key goes, so the statement is a relation: a result
  is the first \<open>n\<close> rows of some arrangement of the table that is descending in
  \<open>created_at\<close>.  \<open>desc_created\<close> is the comparison the statement orders by.
\<close>

definition desc_created :: "qr_row \<Rightarrow> qr_row \<Rightarrow> bool" where
  "desc_created a b = (created_at b \<le> created_at a)"

definition listQR_order :: "qr_table \<Rightarrow> qr_row list \<Rightarrow> bool" where
  "listQR_order tbl xs = (mset xs = mset tbl \<and> sorted_wrt desc_created xs)"

definition listQR :: "qr_table \<Rightarrow> nat \<Rightarrow> qr_row list \<Rightarrow> bool" where
  "listQR tbl n res = (\<exists>xs. listQR_order tbl xs \<and> res = take n xs)"

section \<open>JavaScript numbers, as far as the handlers use them\<close>

text \<open>
  A JavaScript Number is \<open>NaN\<close>, an infinity or a finite double.  The handlers only
  compare numbers and take minima and maxima, which are exact, so a finite double is
  modelled by the rational it denotes.  \<open>Math.min\<close> and \<open>Math.max\<close> return \<open>NaN\<close> as soon
  as an argument is \<open>NaN\<close>; \<open><\<close> is false as soon as an operand is \<open>NaN\<close>.
\<close>

datatype jsnum = NaN | NegInf | Fin rat | PosInf

fun js_lt :: "jsnum \<Rightarrow> jsnum \<Rightarrow> bool" where
  "js_lt NaN b = False"
| "js_lt a NaN = False"
| "js_lt a NegInf = False"
| "js_lt NegInf b = True"
| "js_lt PosInf b = False"
| "js_lt (Fin x) PosInf = True"
| "js_lt (Fin x) (Fin y) = (x < y)"

definition Math_min :: "jsnum \<Rightarrow> jsnum \<Rightarrow> jsnum" where
  "Math_min a b = (if a = NaN \<or> b = NaN then NaN else if js_lt b a then b else a)"

definition Math_max :: "jsnum \<Rightarrow> jsnum \<Rightarrow> jsnum" where
  "Math_max a b = (if a = NaN \<or> b = NaN then NaN else if js_lt a b then b else a)"

text \<open>
  \<^verbatim>\<open>Number(req.body?.count || d)\<close>: the request's \<open>count\<close> is \<open>None\<close> when it is missing or
  falsy (\<open>0\<close>, \<open>""\<close>, \<open>null\<close>, \<open>false\<close>), so that the default \<open>d\<close> is taken, and \<open>Some n\<close> when it
  is truthy and the built-in \<open>Number\<close> maps it to \<open>n\<close> (\<open>NaN\<close> for a string that is not a
  numeric literal, for an object, and for most arrays).
\<close>

definition Number_or :: "jsnum option \<Rightarrow> rat \<Rightarrow> jsnum" where
  "Number_or c d = (case c of None \<Rightarrow> Fin d | Some n \<Rightarrow> n)"

section \<open>The batch-create handler, \<open>POST /api/qrs/create\<close>\<close>

text \<open>
  \<^verbatim>\<open>
  const count = Math.max(1, Math.min(200, Number(req.body?.count || 12)));
  const now = Date.now();
  const ids = [];
  for (let i = 0; i < count; i++) {
    const id = newId();  insertQR.run(id, now);  ids.push(id);
  }
  res.json({ ok: true, created: ids.length, ids });
  \<close>
  \<open>newId()\<close> draws a random identifier; \<open>gen k\<close> is the identifier the \<open>k\<close>-th draw of the
  request returns.  The loop runs while \<open>i < count\<close> in JavaScript's sense, hence not at
  all for \<open>count = NaN\<close> and for ever for \<open>count = Infinity\<close>: it is a partial function,
  \<open>None\<close> meaning that it does not return.
\<close>

definition clamp_count :: "jsnum \<Rightarrow> jsnum" where
  "clamp_count n = Math_max (Fin 1) (Math_min (Fin 200) n)"

partial_function (option) create_loop ::
  "(nat \<Rightarrow> string) \<Rightarrow> int \<Rightarrow> jsnum \<Rightarrow> nat \<Rightarrow> qr_table \<Rightarrow> string list
     \<Rightarrow> (qr_table \<times> string list) option" where
  "create_loop gen now cnt i tbl acc =
     (if js_lt (Fin (of_nat i)) cnt
      then create_loop gen now cnt (i + 1) (fst (insertQR tbl (gen i) now)) (acc @ [gen i])
      else Some (tbl, acc))"

declare create_loop.simps [code]

record create_response =
  cr_created :: nat
  cr_ids :: "string list"
  cr_code :: "string option"
  cr_claimUrl :: "string option"

text \<open>The ethers variant (lines 112-124): default count 12, response \<open>{ok, created, ids}\<close>.\<close>

definition create_ethers ::
  "(nat \<Rightarrow> string) \<Rightarrow> int \<Rightarrow> qr_table \<Rightarrow> jsnum option \<Rightarrow> (qr_table \<times> create_response) option" where
  "create_ethers gen now tbl c =
     (case create_loop gen now (clamp_count (Number_or c 12)) 0 tbl [] of
        None \<Rightarrow> None
      | Some (tbl', xs) \<Rightarrow>
          Some (tbl', \<lparr>cr_created = length xs, cr_ids = xs, cr_code = None, cr_claimUrl = None\<rparr>))"

text \<open>
  The Engine variant (lines 286-308): default count 1; the response also carries the first
  identifier as \<open>code\<close> and \<open>claimUrl = WIX_CLAIM_URL + "?id=" + ids[0]\<close>, where \<open>ids[0]\<close> of an
  empty array is \<open>undefined\<close> (left out of the JSON, and the text \<open>undefined\<close> in the URL).
\<close>

definition create_engine ::
  "string \<Rightarrow> (nat \<Rightarrow> string) \<Rightarrow> int \<Rightarrow> qr_table \<Rightarrow> jsnum option
     \<Rightarrow> (qr_table \<times> create_response) option" where
  "create_engine wix gen now tbl c =
     (case create_loop gen now (clamp_count (Number_or c 1)) 0 tbl [] of
        None \<Rightarrow> None
      | Some (tbl', xs) \<Rightarrow>
          Some (tbl', \<lparr>cr_created = length xs, cr_ids = xs,
                       cr_code = (case xs of [] \<Rightarrow> None | x # _ \<Rightarrow> Some x),
                       cr_claimUrl =
                         Some (wix @ ''?id='' @ (case xs of [] \<Rightarrow> ''undefined'' | x # _ \<Rightarrow> x))\<rparr>))"

section \<open>The claim handler, \<open>POST /api/claim\<close>\<close>

text \<open>
  A response is the HTTP status and the JSON body \<open>{ok, error}\<close> or \<open>{ok, txHash}\<close>
  (\<open>transactionId\<close> in the Engine variant).  An effect is a statement run against the
  table, a call of the minter, or a line written to the log with \<open>console.log\<close> or
  \<open>console.error\<close>; the handler's effects are listed in the order it makes them.  (The
  source writes to the log when the server starts listening and when listening fails; the
  claim handlers contain no such call.)
\<close>

record response =
  http_status :: nat
  body_ok :: bool
  body_error :: "string option"
  body_txHash :: "string option"

definition fail_with :: "nat \<Rightarrow> string \<Rightarrow> response" where
  "fail_with st msg = \<lparr>http_status = st, body_ok = False, body_error = Some msg, body_txHash = None\<rparr>"

definition success :: "string \<Rightarrow> response" where
  "success h = \<lparr>http_status = 200, body_ok = True, body_error = None, body_txHash = Some h\<rparr>"

datatype effect = DbGet string | Mint string | DbMarkUsed int string string string | Log string

fun is_Log :: "effect \<Rightarrow> bool" where
  "is_Log (Log l) = True"
| "is_Log x = False"

text \<open>
  A thrown value \<open>e\<close>, as far as the \<open>catch\<close> block reads it: \<open>e?.message\<close> (\<open>None\<close> when there is
  none) and \<open>String(e)\<close>.  \<open>new Error(m)\<close> has message \<open>m\<close> and prints as \<open>Error: m\<close>.
\<close>

datatype thrown = Thrown (message: "string option") (as_String: string)

definition new_Error :: "string \<Rightarrow> thrown" where
  "new_Error m = Thrown (Some m) (if m = [] then ''Error'' else ''Error: '' @ m)"

datatype 'a outcome = Returns 'a | Throws thrown

text \<open>\<^verbatim>\<open>e?.message || String(e)\<close>: the message unless it is missing or empty.\<close>

definition error_text :: "thrown \<Rightarrow> string" where
  "error_text e = (case message e of None \<Rightarrow> as_String e | Some m \<Rightarrow> if m = [] then as_String e else m)"

text \<open>\<open>if (row.used_at)\<close>: JavaScript truthiness of a nullable integer column.\<close>

definition truthy_int :: "int option \<Rightarrow> bool" where
  "truthy_int v = (case v of None \<Rightarrow> False | Some n \<Rightarrow> n \<noteq> 0)"

subsection \<open>The ethers variant (lines 41-92 and 159-183)\<close>

record env =
  RPC_URL :: string
  PRIVATE_KEY :: string
  NFT_CONTRACT_ADDRESS :: string
  MINT_METHOD :: string

definition chainReady :: "env \<Rightarrow> bool" where
  "chainReady e = (RPC_URL e \<noteq> [] \<and> PRIVATE_KEY e \<noteq> [] \<and> NFT_CONTRACT_ADDRESS e \<noteq> [])"

text \<open>
  \<open>mintTo\<close>.  The contract call and \<open>tx.wait()\<close> are the ethers library and the chain:
  \<open>chain m a\<close> is what calling method \<open>m\<close> for address \<open>a\<close> and waiting for the receipt give,
  either a thrown value or the pair of \<open>receipt?.hash\<close> and \<open>tx.hash\<close>.  \<open>isAddress\<close> is
  \<open>ethers.isAddress\<close>.  (\<open>if (!contract) initChain()\<close> has no effect the handler can see.)
\<close>

definition mintTo ::
  "env \<Rightarrow> (string \<Rightarrow> bool) \<Rightarrow> (string \<Rightarrow> string \<Rightarrow> (string option \<times> string) outcome) \<Rightarrow> string
     \<Rightarrow> string outcome" where
  "mintTo e isAddress chain walletAddress =
     (if \<not> chainReady e then Throws (new_Error ''Missing RPC_URL / PRIVATE_KEY / NFT_CONTRACT_ADDRESS'')
      else if \<not> isAddress walletAddress then Throws (new_Error ''Invalid wallet address'')
      else if MINT_METHOD e = ''claimTo'' \<or> MINT_METHOD e = ''safeMint'' \<or> MINT_METHOD e = ''mint''
      then (case chain (MINT_METHOD e) walletAddress of
              Throws x \<Rightarrow> Throws x
            | Returns (receipt_hash, tx_hash') \<Rightarrow>
                Returns (case receipt_hash of None \<Rightarrow> tx_hash'
                         | Some h \<Rightarrow> if h = [] then tx_hash' else h))
      else Throws (new_Error (''Unknown MINT_METHOD: '' @ MINT_METHOD e)))"

text \<open>
  The handler up to the \<open>try\<close> block: \<open>Some\<close> response when it answers there, \<open>None\<close> when it
  goes on to the minter.  \<open>code\<close> and \<open>walletAddress\<close> are the strings
  \<open>String(req.body?.code || "")\<close> and \<open>String(req.body?.walletAddress || "")\<close>.
\<close>

definition claim_check_ethers ::
  "(string \<Rightarrow> bool) \<Rightarrow> qr_table \<Rightarrow> string \<Rightarrow> string \<Rightarrow> response option \<times> effect list" where
  "claim_check_ethers isAddress tbl c walletAddress =
     (if c = [] then (Some (fail_with 400 ''Missing code''), [])
      else if \<not> isAddress walletAddress then (Some (fail_with 400 ''Invalid walletAddress''), [])
      else (case getQR tbl c of
              None \<Rightarrow> (Some (fail_with 404 ''QR not found''), [DbGet c])
            | Some row \<Rightarrow>
                if truthy_int (used_at row) then (Some (fail_with 409 ''Already claimed''), [DbGet c])
                else (None, [DbGet c])))"

text \<open>
  The \<open>try\<close> block, run on the table as it is when the minter has answered; \<open>now\<close> is the
  \<open>Date.now()\<close> of the \<open>markUsed\<close> call.
\<close>

definition claim_settle ::
  "string outcome \<Rightarrow> int \<Rightarrow> qr_table \<Rightarrow> string \<Rightarrow> string \<Rightarrow> response \<times> qr_table \<times> effect list" where
  "claim_settle minted now tbl c walletAddress =
     (case minted of
        Throws x \<Rightarrow> (fail_with 500 (error_text x), tbl, [Mint walletAddress])
      | Returns h \<Rightarrow>
          (let (tbl', changed) = markUsed tbl now walletAddress h c
           in (if changed = 0 then fail_with 409 ''QR just got used'' else success h,
               tbl', [Mint walletAddress, DbMarkUsed now walletAddress h c])))"

text \<open>
  The whole handler.  It is \<open>async\<close>: while it awaits the minter, other requests run, and
  \<open>during\<close> is what they do to the table in that time (the identity when there are none).
\<close>

definition claim_ethers ::
  "env \<Rightarrow> (string \<Rightarrow> bool) \<Rightarrow> (string \<Rightarrow> string \<Rightarrow> (string option \<times> string) outcome) \<Rightarrow> int
     \<Rightarrow> (qr_table \<Rightarrow> qr_table) \<Rightarrow> qr_table \<Rightarrow> string \<Rightarrow> string \<Rightarrow> response \<times> qr_table \<times> effect list" where
  "claim_ethers e isAddress chain now during tbl c walletAddress =
     (case claim_check_ethers isAddress tbl c walletAddress of
        (Some r, fx) \<Rightarrow> (r, tbl, fx)
      | (None, fx) \<Rightarrow>
          (let (r, tbl', fx') =
                 claim_settle (mintTo e isAddress chain walletAddress) now (during tbl) c walletAddress
           in (r, tbl', fx @ fx')))"

subsection \<open>The Engine variant (lines 208-221 and 340-365)\<close>

record engine_env =
  THIRDWEB_SECRET_KEY :: string
  THIRDWEB_VAULT_ACCESS_TOKEN :: string
  SERVER_WALLET_ADDRESS :: string
  ENGINE_NFT_CONTRACT_ADDRESS :: string

definition envOk :: "engine_env \<Rightarrow> bool" where
  "envOk e = (THIRDWEB_SECRET_KEY e \<noteq> [] \<and> THIRDWEB_VAULT_ACCESS_TOKEN e \<noteq> []
              \<and> SERVER_WALLET_ADDRESS e \<noteq> [] \<and> ENGINE_NFT_CONTRACT_ADDRESS e \<noteq> [])"

text \<open>
  \<^verbatim>\<open>!walletAddress || !walletAddress.startsWith("0x") || walletAddress.length !== 42\<close>
  (\<open>length\<close> counts the characters of the string; for the ASCII strings an address is made
  of, that is what JavaScript's \<open>length\<close> counts.)
\<close>

definition bad_wallet :: "string \<Rightarrow> bool" where
  "bad_wallet walletAddress =
     (walletAddress = [] \<or> take 2 walletAddress \<noteq> ''0x'' \<or> length walletAddress \<noteq> 42)"

definition claim_check_engine ::
  "engine_env \<Rightarrow> qr_table \<Rightarrow> string \<Rightarrow> string \<Rightarrow> response option \<times> effect list" where
  "claim_check_engine e tbl c walletAddress =
     (if \<not> envOk e then (Some (fail_with 500 ''Missing env vars''), [])
      else if c = [] then (Some (fail_with 400 ''Missing code''), [])
      else if bad_wallet walletAddress then (Some (fail_with 400 ''Invalid walletAddress''), [])
      else (case getQR tbl c of
              None \<Rightarrow> (Some (fail_with 404 ''QR not found''), [DbGet c])
            | Some row \<Rightarrow>
                if truthy_int (used_at row) then (Some (fail_with 409 ''Already claimed''), [DbGet c])
                else (None, [DbGet c])))"

text \<open>
  \<open>engine a\<close> is what \<open>buildMintTx(a)\<close> followed by \<open>serverWallet.enqueueTransaction\<close> gives:
  the \<open>transactionId\<close> or a thrown value.  The \<open>try\<close> block is the ethers variant's.
\<close>

definition claim_engine ::
  "engine_env \<Rightarrow> (string \<Rightarrow> string outcome) \<Rightarrow> int \<Rightarrow> (qr_table \<Rightarrow> qr_table) \<Rightarrow> qr_table
     \<Rightarrow> string \<Rightarrow> string \<Rightarrow> response \<times> qr_table \<times> effect list" where
  "claim_engine e engine now during tbl c walletAddress =
     (case claim_check_engine e tbl c walletAddress of
        (Some r, fx) \<Rightarrow> (r, tbl, fx)
      | (None, fx) \<Rightarrow>
          (let (r, tbl', fx') = claim_settle (engine walletAddress) now (during tbl) c walletAddress
           in (r, tbl', fx @ fx')))"

subsection \<open>The claim handlers when the store fails\<close>

text \<open>
  A statement run throws when the store is unavailable.  \<open>get_fault\<close> is the value
  \<open>getQR.get\<close> throws and \<open>mark_fault\<close> the value \<open>markUsed.run\<close> throws, \<open>None\<close> when the run
  goes through.  The lookup stands before the \<open>try\<close> block, so what it throws leaves the
  \<open>async\<close> handler uncaught: the handler sends no response and its promise is rejected
  (\<open>Rejects\<close>); what the caller then sees is up to Express.  \<open>markUsed.run\<close> stands inside the
  \<open>try\<close> block, so what it throws is answered by the \<open>catch\<close> block like a failure of the
  minter.  With no fault these are the handlers above.
\<close>

datatype answer = Responds response | Rejects thrown

definition claim_settle_store ::
  "string outcome \<Rightarrow> thrown option \<Rightarrow> int \<Rightarrow> qr_table \<Rightarrow> string \<Rightarrow> string
     \<Rightarrow> response \<times> qr_table \<times> effect list" where
  "claim_settle_store minted mark_fault now tbl c walletAddress =
     (case minted of
        Throws x \<Rightarrow> (fail_with 500 (error_text x), tbl, [Mint walletAddress])
      | Returns h \<Rightarrow>
          (case mark_fault of
             Some x \<Rightarrow> (fail_with 500 (error_text x), tbl,
                        [Mint walletAddress, DbMarkUsed now walletAddress h c])
           | None \<Rightarrow>
               (let (tbl', changed) = markUsed tbl now walletAddress h c
                in (if changed = 0 then fail_with 409 ''QR just got used'' else success h,
                    tbl', [Mint walletAddress, DbMarkUsed now walletAddress h c]))))"

definition claim_ethers_store ::
  "thrown option \<Rightarrow> thrown option \<Rightarrow> env \<Rightarrow> (string \<Rightarrow> bool)
     \<Rightarrow> (string \<Rightarrow> string \<Rightarrow> (string option \<times> string) outcome) \<Rightarrow> int
     \<Rightarrow> (qr_table \<Rightarrow> qr_table) \<Rightarrow> qr_table \<Rightarrow> string \<Rightarrow> string \<Rightarrow> answer \<times> qr_table \<times> effect list" where
  "claim_ethers_store get_fault mark_fault e isAddress chain now during tbl c walletAddress =
     (if c = [] then (Responds (fail_with 400 ''Missing code''), tbl, [])
      else if \<not> isAddress walletAddress then (Responds (fail_with 400 ''Invalid walletAddress''), tbl, [])
      else (case get_fault of
              Some x \<Rightarrow> (Rejects x, tbl, [DbGet c])
            | None \<Rightarrow>
                (case getQR tbl c of
                   None \<Rightarrow> (Responds (fail_with 404 ''QR not found''), tbl, [DbGet c])
                 | Some row \<Rightarrow>
                     if truthy_int (used_at row)
                     then (Responds (fail_with 409 ''Already claimed''), tbl, [DbGet c])
                     else (let (r, tbl', fx') =
                                 claim_settle_store (mintTo e isAddress chain walletAddress) mark_fault now
                                   (during tbl) c walletAddress
                           in (Responds r, tbl', DbGet c # fx')))))"

definition claim_engine_store ::
  "thrown option \<Rightarrow> thrown option \<Rightarrow> engine_env \<Rightarrow> (string \<Rightarrow> string outcome) \<Rightarrow> int
     \<Rightarrow> (qr_table \<Rightarrow> qr_table) \<Rightarrow> qr_table \<Rightarrow> string \<Rightarrow> string \<Rightarrow> answer \<times> qr_table \<times> effect list" where
  "claim_engine_store get_fault mark_fault e engine now during tbl c walletAddress =
     (if \<not> envOk e then (Responds (fail_with 500 ''Missing env vars''), tbl, [])
      else if c = [] then (Responds (fail_with 400 ''Missing code''), tbl, [])
      else if bad_wallet walletAddress then (Responds (fail_with 400 ''Invalid walletAddress''), tbl, [])
      else (case get_fault of
              Some x \<Rightarrow> (Rejects x, tbl, [DbGet c])
            | None \<Rightarrow>
                (case getQR tbl c of
                   None \<Rightarrow> (Responds (fail_with 404 ''QR not found''), tbl, [DbGet c])
                 | Some row \<Rightarrow>
                     if truthy_int (used_at row)
                     then (Responds (fail_with 409 ''Already claimed''), tbl, [DbGet c])
                     else (let (r, tbl', fx') =
                                 claim_settle_store (engine walletAddress) mark_fault now
                                   (during tbl) c walletAddress
                           in (Responds r, tbl', DbGet c # fx')))))"

section \<open>Runs of statements\<close>

text \<open>
  The handlers touch the table only through the four prepared statements, and each run of
  a statement is atomic (better-sqlite3 is synchronous, and a handler yields only at an
  \<open>await\<close>).  So whatever the number of requests and however they interleave, what happens
  to the table is a sequence of statement runs.  \<open>exec\<close> runs one statement and returns the
  table and \<open>.changes\<close> (0 for the two reads, which change nothing); \<open>observed\<close> pairs each
  statement of a run with the \<open>.changes\<close> it saw; \<open>final\<close> is the table after the run.
\<close>

datatype stmt =
    Insert string int
  | Get string
  | List_all nat
  | MarkUsed int string string string

fun exec :: "qr_table \<Rightarrow> stmt \<Rightarrow> qr_table \<times> nat" where
  "exec tbl (Insert i t) = insertQR tbl i t"
| "exec tbl (Get i) = (tbl, 0)"
| "exec tbl (List_all n) = (tbl, 0)"
| "exec tbl (MarkUsed t w h i) = markUsed tbl t w h i"

fun final :: "qr_table \<Rightarrow> stmt list \<Rightarrow> qr_table" where
  "final tbl [] = tbl"
| "final tbl (s # ss) = final (fst (exec tbl s)) ss"

fun observed :: "qr_table \<Rightarrow> stmt list \<Rightarrow> (stmt \<times> nat) list" where
  "observed tbl [] = []"
| "observed tbl (s # ss) = (s, snd (exec tbl s)) # observed (fst (exec tbl s)) ss"

text \<open>The statements the loop of the create handler runs for its draws \<open>i\<close> to \<open>n - 1\<close>.\<close>

definition inserts :: "(nat \<Rightarrow> string) \<Rightarrow> int \<Rightarrow> nat \<Rightarrow> nat \<Rightarrow> stmt list" where
  "inserts gen now i n = map (\<lambda>k. Insert (gen k) now) [i..<n]"

text \<open>The \<open>markUsed\<close> runs on code \<open>i\<close> that saw \<open>changes \<noteq> 0\<close>, in order.\<close>

fun marks :: "string \<Rightarrow> stmt \<Rightarrow> bool" where
  "marks i (MarkUsed t w h j) = (j = i)"
| "marks i s = False"

definition winners :: "string \<Rightarrow> qr_table \<Rightarrow> stmt list \<Rightarrow> (stmt \<times> nat) list" where
  "winners i tbl ss = filter (\<lambda>(s, c). marks i s \<and> c \<noteq> 0) (observed tbl ss)"

text \<open>The three consumption columns of the row of code \<open>i\<close>.\<close>

definition triple :: "qr_table \<Rightarrow> string \<Rightarrow> (int option \<times> string option \<times> string option) option" where
  "triple tbl i = map_option (\<lambda>r. (used_at r, used_by r, tx_hash r)) (getQR tbl i)"

definition unused :: "qr_row \<Rightarrow> bool" where
  "unused r = (used_at r = None \<and> used_by r = None \<and> tx_hash r = None)"

definition used :: "qr_row \<Rightarrow> bool" where
  "used r = (used_at r \<noteq> None \<and> used_by r \<noteq> None \<and> tx_hash r \<noteq> None)"

definition consumption_ok :: "qr_table \<Rightarrow> bool" where
  "consumption_ok tbl = list_all (\<lambda>r. unused r \<or> used r) tbl"

text \<open>
  \<open>used_at\<close> is written by \<open>markUsed.run(Date.now(), ...)\<close> only, and \<open>Date.now()\<close> is 0
  at one instant, the first millisecond of 1970.  \<open>clock_ok\<close> says that a statement run
  does not bind that reading, and \<open>no_epoch\<close> that no row of the table stores it.
\<close>

fun clock_ok :: "stmt \<Rightarrow> bool" where
  "clock_ok (MarkUsed t w h i) = (t \<noteq> 0)"
| "clock_ok s = True"

definition no_epoch :: "qr_table \<Rightarrow> bool" where
  "no_epoch tbl = list_all (\<lambda>r. used_at r \<noteq> Some 0) tbl"

section \<open>Notions of the specification\<close>

text \<open>
  The specification's address format, in its own words: the required prefix \<open>0x\<close> followed
  by exactly 40 hexadecimal characters.  It is compared below with the tests the two
  variants make (\<open>ethers.isAddress\<close> and \<open>bad_wallet\<close>).
\<close>

definition is_hex :: "char \<Rightarrow> bool" where
  "is_hex ch = (ch \<in> set ''0123456789abcdefABCDEF'')"

definition spec_hex_address :: "string \<Rightarrow> bool" where
  "spec_hex_address a = (take 2 a = ''0x'' \<and> length (drop 2 a) = 40 \<and> list_all is_hex (drop 2 a))"

text \<open>
  The external shape of a response: its status and which fields its body has, without the
  text of the message or the value of the reference.
\<close>

definition shape :: "response \<Rightarrow> nat \<times> bool \<times> bool \<times> bool" where
  "shape r = (http_status r, body_ok r, body_error r \<noteq> None, body_txHash r \<noteq> None)"

section \<open>Concrete inputs\<close>

definition env_ready :: env where
  "env_ready = \<lparr>RPC_URL = ''https://rpc.example/v2/k3y'', PRIVATE_KEY = ''0xsecret'',
                 NFT_CONTRACT_ADDRESS = ''0xc0ffee'', MINT_METHOD = ''claimTo''\<rparr>"

definition engine_ready :: engine_env where
  "engine_ready = \<lparr>THIRDWEB_SECRET_KEY = ''sk'', THIRDWEB_VAULT_ACCESS_TOKEN = ''vt'',
                    SERVER_WALLET_ADDRESS = ''0xserver'', ENGINE_NFT_CONTRACT_ADDRESS = ''0xc0ffee''\<rparr>"


text \<open>Two addresses of 42 characters with the prefix: 40 times \<open>1\<close>, and 40 times \<open>z\<close>.\<close>

definition wallet_1 :: string where
  "wallet_1 = ''0x'' @ replicate 40 (CHR ''1'')"

definition wallet_z :: string where
  "wallet_z = ''0x'' @ replicate 40 (CHR ''z'')"

text \<open>A chain on which every mint goes through, and an Engine that queues every mint.\<close>

definition chain_mints :: "string \<Rightarrow> string \<Rightarrow> (string option \<times> string) outcome" where
  "chain_mints m a = Returns (Some ''0xreceipt'', ''0xtx'')"

definition engine_queues :: "string \<Rightarrow> string outcome" where
  "engine_queues a = Returns ''queue-1''"

text \<open>A chain on which every mint is reverted, and the value a locked database throws.\<close>

definition chain_reverts :: "string \<Rightarrow> string \<Rightarrow> (string option \<times> string) outcome" where
  "chain_reverts m a = Throws (new_Error ''execution reverted'')"

definition db_locked :: thrown where
  "db_locked = Thrown (Some ''database is locked'') ''SqliteError: database is locked''"

text \<open>What another claim on code \<open>c\<close> does to the table when it wins while this one awaits.\<close>

definition other_wins :: "qr_table \<Rightarrow> qr_table" where
  "other_wins t = fst (markUsed t 5 wallet_z ''0xother'' ''c'')"

text \<open>A row of code \<open>c\<close> consumed by another wallet.\<close>

definition row_used :: qr_row where
  "row_used = \<lparr>row_id = ''c'', created_at = 1, used_at = Some 5, used_by = Some wallet_z,
                 tx_hash = Some ''0xother''\<rparr>"

text \<open>A generator whose first draw is \<open>a\<close> and whose later draws are \<open>b\<close>.\<close>

definition gen_ab :: "nat \<Rightarrow> string" where
  "gen_ab k = (if k = 0 then ''a'' else ''b'')"

section \<open>Properties of the store\<close>

lemma insertQR_primary_key: "primary_key tbl \<Longrightarrow> primary_key (fst (insertQR tbl i t))"
  by (auto simp: insertQR_def primary_key_def new_row_def)

lemma markUsed_length: "length (fst (markUsed tbl t w h i)) = length tbl"
  by (simp add: markUsed_def)

lemma markUsed_ids: "map row_id (fst (markUsed tbl t w h i)) = map row_id tbl"
  by (induction tbl) (auto simp: markUsed_def markUsed_set_def)

lemma pk_filter_le1: "primary_key tbl \<Longrightarrow> length (filter (\<lambda>r. row_id r = i) tbl) \<le> 1"
  unfolding primary_key_def
  by (induction tbl) (auto simp: filter_empty_conv image_iff)

lemma pk_where_le1: "primary_key tbl \<Longrightarrow> length (filter (markUsed_where i) tbl) \<le> 1"
  unfolding primary_key_def markUsed_where_def
  by (induction tbl) (auto simp: filter_empty_conv image_iff)

lemma getQR_Some: "getQR tbl i = Some r \<Longrightarrow> r \<in> set tbl \<and> row_id r = i"
  unfolding getQR_def by (auto simp: find_Some_iff)

lemma getQR_None: "getQR tbl i = None \<longleftrightarrow> i \<notin> set (map row_id tbl)"
  unfolding getQR_def by (auto simp: find_None_iff)

lemma getQR_pk: "primary_key tbl \<Longrightarrow> r \<in> set tbl \<Longrightarrow> getQR tbl (row_id r) = Some r"
  unfolding primary_key_def getQR_def
  by (induction tbl) (auto simp: image_iff)

lemma markUsed_changes:
  "snd (markUsed tbl t w h i) \<noteq> 0 \<longleftrightarrow> (\<exists>r \<in> set tbl. row_id r = i \<and> used_at r = None)"
  by (auto simp: markUsed_def markUsed_where_def filter_empty_conv)

lemma markUsed_noop:
  "\<not> (\<exists>r \<in> set tbl. row_id r = i \<and> used_at r = None) \<Longrightarrow> markUsed tbl t w h i = (tbl, 0)"
  by (auto simp: markUsed_def markUsed_where_def filter_empty_conv intro!: map_idI)

lemma markUsed_hit:
  assumes "primary_key tbl" "getQR tbl i = Some r" "used_at r = None"
  shows "markUsed tbl t w h i =
           (map (\<lambda>x. if row_id x = i then x\<lparr>used_at := Some t, used_by := Some w, tx_hash := Some h\<rparr> else x) tbl, 1)"
proof -
  have in_tbl: "r \<in> set tbl" "row_id r = i" using getQR_Some [OF assms(2)] by auto
  have only: "x \<in> set tbl \<Longrightarrow> row_id x = i \<Longrightarrow> x = r" for x
    using getQR_pk [OF assms(1), of x] assms(2) by simp
  have "filter (markUsed_where i) tbl \<noteq> []"
    using in_tbl assms(3) by (auto simp: filter_empty_conv markUsed_where_def)
  with pk_where_le1 [OF assms(1), of i] have "length (filter (markUsed_where i) tbl) = 1"
    by (cases "filter (markUsed_where i) tbl") auto
  moreover have "map (\<lambda>x. if markUsed_where i x then markUsed_set t w h x else x) tbl =
      map (\<lambda>x. if row_id x = i then x\<lparr>used_at := Some t, used_by := Some w, tx_hash := Some h\<rparr> else x) tbl"
    using only assms(3) by (auto simp: markUsed_where_def markUsed_set_def)
  ultimately show ?thesis by (simp add: markUsed_def)
qed

text \<open>
  Claim C2.  \<open>markUsed\<close> is a conditional update.  On a table that respects the primary
  key, the run reports a change exactly when a row with the given id exists and its
  \<open>used_at\<close> is \<open>NULL\<close>; in that case it reports one change and the new table is the old one
  with \<open>used_at\<close>, \<open>used_by\<close> and \<open>tx_hash\<close> of that row set to the three parameters, the
  row's id and \<open>created_at\<close> and every other row being as before.  When no such row exists,
  or its \<open>used_at\<close> is already set, the table is returned as it was and no change is
  reported.
\<close>

theorem markUsed_conditional_update:
  assumes "primary_key tbl"
  shows "(snd (markUsed tbl t w h i) \<noteq> 0 \<longleftrightarrow> (\<exists>r. getQR tbl i = Some r \<and> used_at r = None)) \<and>
         (case getQR tbl i of
            None \<Rightarrow> markUsed tbl t w h i = (tbl, 0)
          | Some r \<Rightarrow>
              if used_at r = None
              then markUsed tbl t w h i =
                     (map (\<lambda>x. if row_id x = i
                                then x\<lparr>used_at := Some t, used_by := Some w, tx_hash := Some h\<rparr>
                                else x) tbl, 1)
                   \<and> getQR (fst (markUsed tbl t w h i)) i =
                       Some (r\<lparr>used_at := Some t, used_by := Some w, tx_hash := Some h\<rparr>)
              else markUsed tbl t w h i = (tbl, 0))"
proof (cases "getQR tbl i")
  case None
  then have "\<not> (\<exists>r \<in> set tbl. row_id r = i \<and> used_at r = None)"
    by (auto simp: getQR_None)
  then show ?thesis using None markUsed_noop [of tbl i t w h] by simp
next
  case (Some r)
  have in_tbl: "r \<in> set tbl" "row_id r = i" using getQR_Some [OF Some] by auto
  show ?thesis
  proof (cases "used_at r = None")
    case True
    note hit = markUsed_hit [OF assms Some True, of t w h]
    have "primary_key (fst (markUsed tbl t w h i))"
      using assms markUsed_ids [of tbl t w h i] by (simp add: primary_key_def)
    moreover have "r\<lparr>used_at := Some t, used_by := Some w, tx_hash := Some h\<rparr> \<in> set (fst (markUsed tbl t w h i))"
      unfolding hit using in_tbl by (auto simp: image_iff intro!: bexI [of _ r])
    ultimately have "getQR (fst (markUsed tbl t w h i)) (row_id (r\<lparr>used_at := Some t, used_by := Some w, tx_hash := Some h\<rparr>))
        = Some (r\<lparr>used_at := Some t, used_by := Some w, tx_hash := Some h\<rparr>)"
      by (rule getQR_pk)
    then show ?thesis using Some True hit in_tbl by simp
  next
    case False
    have "x \<in> set tbl \<Longrightarrow> row_id x = i \<Longrightarrow> x = r" for x
      using getQR_pk [OF assms, of x] Some by simp
    then have "\<not> (\<exists>x \<in> set tbl. row_id x = i \<and> used_at x = None)" using False by auto
    then show ?thesis using Some False markUsed_noop [of tbl i t w h] by simp
  qed
qed

theorem markUsed_conditional_update_witness:
  "primary_key [new_row ''a'' 1, new_row ''b'' 2] \<and>
   markUsed [new_row ''a'' 1, new_row ''b'' 2] 5 ''w'' ''h'' ''a'' =
     ([\<lparr>row_id = ''a'', created_at = 1, used_at = Some 5, used_by = Some ''w'', tx_hash = Some ''h''\<rparr>,
       new_row ''b'' 2], 1) \<and>
   markUsed [\<lparr>row_id = ''a'', created_at = 1, used_at = Some 5, used_by = Some ''w'', tx_hash = Some ''h''\<rparr>,
             new_row ''b'' 2] 9 ''v'' ''g'' ''a'' =
     ([\<lparr>row_id = ''a'', created_at = 1, used_at = Some 5, used_by = Some ''w'', tx_hash = Some ''h''\<rparr>,
       new_row ''b'' 2], 0) \<and>
   markUsed [new_row ''a'' 1, new_row ''b'' 2] 5 ''w'' ''h'' ''c'' = ([new_row ''a'' 1, new_row ''b'' 2], 0)"
proof -
  have pk1: "primary_key [new_row ''a'' 1, new_row ''b'' 2]"
    by (simp add: primary_key_def new_row_def)
  have pk2: "primary_key [\<lparr>row_id = ''a'', created_at = 1, used_at = Some 5, used_by = Some ''w'', tx_hash = Some ''h''\<rparr>,
             new_row ''b'' 2]"
    by (simp add: primary_key_def new_row_def)
  show ?thesis
    using pk1 markUsed_conditional_update [OF pk1, of 5 "''w''" "''h''" "''a''"]
      markUsed_conditional_update [OF pk2, of 9 "''v''" "''g''" "''a''"]
      markUsed_conditional_update [OF pk1, of 5 "''w''" "''h''" "''c''"]
    by (simp add: getQR_def new_row_def)
qed

section \<open>Properties of runs: single use\<close>

lemma getQR_append:
  "getQR (tbl @ [x]) i = (case getQR tbl i of None \<Rightarrow> (if row_id x = i then Some x else None) | Some r \<Rightarrow> Some r)"
  by (induction tbl) (auto simp: getQR_def)

lemma getQR_insertQR:
  "getQR (fst (insertQR tbl j t)) i =
     (case getQR tbl i of None \<Rightarrow> (if j = i then Some (new_row i t) else None) | Some r \<Rightarrow> Some r)"
proof (cases "j \<in> set (map row_id tbl)")
  case True
  then show ?thesis using getQR_None [of tbl j]
    by (auto simp: insertQR_def split: option.splits)
next
  case False
  then show ?thesis
    by (auto simp: insertQR_def getQR_append new_row_def split: option.splits)
qed

lemma getQR_markUsed:
  "getQR (fst (markUsed tbl t w h j)) i =
     map_option (\<lambda>r. if markUsed_where j r then markUsed_set t w h r else r) (getQR tbl i)"
  by (induction tbl) (auto simp: markUsed_def getQR_def markUsed_set_def)

lemma markUsed_primary_key: "primary_key tbl \<Longrightarrow> primary_key (fst (markUsed tbl t w h i))"
  by (simp add: primary_key_def markUsed_ids)

lemma exec_primary_key: "primary_key tbl \<Longrightarrow> primary_key (fst (exec tbl s))"
  by (cases s) (simp_all add: insertQR_primary_key markUsed_primary_key)

lemma final_primary_key: "primary_key tbl \<Longrightarrow> primary_key (final tbl ss)"
  by (induction ss arbitrary: tbl) (simp_all add: exec_primary_key)

lemma final_append: "final tbl (p @ q) = final (final tbl p) q"
  by (induction p arbitrary: tbl) simp_all

lemma exec_keeps_used:
  assumes "getQR tbl i = Some r" "used_at r \<noteq> None"
  shows "getQR (fst (exec tbl s)) i = Some r"
  using assms by (cases s) (auto simp: getQR_insertQR getQR_markUsed markUsed_where_def)

lemma final_keeps_used:
  "getQR tbl i = Some r \<Longrightarrow> used_at r \<noteq> None \<Longrightarrow> getQR (final tbl ss) i = Some r"
  by (induction ss arbitrary: tbl) (simp_all add: exec_keeps_used)

lemma used_no_change:
  assumes "primary_key tbl" "getQR tbl i = Some r" "used_at r \<noteq> None"
  shows "snd (markUsed tbl t w h i) = 0"
proof -
  have "x \<in> set tbl \<Longrightarrow> row_id x = i \<Longrightarrow> x = r" for x
    using getQR_pk [OF assms(1), of x] assms(2) by simp
  then have "\<not> (\<exists>x \<in> set tbl. row_id x = i \<and> used_at x = None)" using assms(3) by auto
  then show ?thesis using markUsed_noop [of tbl i t w h] by simp
qed

lemma winners_Cons:
  "winners i tbl (s # ss) =
     (if marks i s \<and> snd (exec tbl s) \<noteq> 0 then [(s, snd (exec tbl s))] else []) @ winners i (fst (exec tbl s)) ss"
  by (simp add: winners_def)

lemma winners_used:
  "primary_key tbl \<Longrightarrow> getQR tbl i = Some r \<Longrightarrow> used_at r \<noteq> None \<Longrightarrow> winners i tbl ss = []"
proof (induction ss arbitrary: tbl)
  case Nil
  show ?case by (simp add: winners_def)
next
  case (Cons s ss)
  have rest: "winners i (fst (exec tbl s)) ss = []"
    using Cons.prems by (intro Cons.IH exec_primary_key exec_keeps_used)
  have "\<not> (marks i s \<and> snd (exec tbl s) \<noteq> 0)"
    using used_no_change [OF Cons.prems] by (cases s) auto
  then show ?case using rest by (simp add: winners_Cons)
qed

lemma win_marks_used:
  assumes "primary_key tbl" "marks i s" "snd (exec tbl s) \<noteq> 0"
  shows "\<exists>t w h r. s = MarkUsed t w h i \<and> snd (exec tbl s) = 1 \<and> getQR tbl i = Some r \<and> used_at r = None \<and>
           getQR (fst (exec tbl s)) i = Some (markUsed_set t w h r)"
proof -
  from assms(2) obtain t w h where s: "s = MarkUsed t w h i" by (cases s) auto
  with assms(3) obtain x where x: "x \<in> set tbl" "row_id x = i" "used_at x = None"
    using markUsed_changes [of tbl t w h i] by auto
  have r: "getQR tbl i = Some x" using getQR_pk [OF assms(1) x(1)] x(2) by simp
  have "snd (exec tbl s) = 1" using markUsed_hit [OF assms(1) r x(3), of t w h] s by simp
  then show ?thesis using s r x
    by (auto simp: getQR_markUsed markUsed_where_def)
qed

lemma winners_le1: "primary_key tbl \<Longrightarrow> length (winners i tbl ss) \<le> 1"
proof (induction ss arbitrary: tbl)
  case Nil
  show ?case by (simp add: winners_def)
next
  case (Cons s ss)
  note pk' = exec_primary_key [OF Cons.prems, of s]
  show ?case
  proof (cases "marks i s \<and> snd (exec tbl s) \<noteq> 0")
    case True
    then obtain t w h r where "getQR (fst (exec tbl s)) i = Some (markUsed_set t w h r)"
      using win_marks_used [OF Cons.prems, of i s] by blast
    then have "winners i (fst (exec tbl s)) ss = []"
      using pk' by (intro winners_used) (auto simp: markUsed_set_def)
    then show ?thesis using True by (simp add: winners_Cons)
  next
    case False
    then show ?thesis using Cons.IH [OF pk'] by (auto simp: winners_Cons)
  qed
qed

lemma winners_triple:
  "primary_key tbl \<Longrightarrow> (s, c) \<in> set (winners i tbl ss) \<Longrightarrow>
     \<exists>t w h. s = MarkUsed t w h i \<and> c = 1 \<and> triple (final tbl ss) i = Some (Some t, Some w, Some h)"
proof (induction ss arbitrary: tbl)
  case Nil
  then show ?case by (simp add: winners_def)
next
  case (Cons a ss)
  note pk' = exec_primary_key [OF Cons.prems(1), of a]
  show ?case
  proof (cases "marks i a \<and> snd (exec tbl a) \<noteq> 0")
    case True
    then obtain t w h r where a: "a = MarkUsed t w h i" "snd (exec tbl a) = 1"
        "getQR (fst (exec tbl a)) i = Some (markUsed_set t w h r)"
      using win_marks_used [OF Cons.prems(1), of i a] by blast
    have used': "used_at (markUsed_set t w h r) \<noteq> None" by (simp add: markUsed_set_def)
    have "winners i (fst (exec tbl a)) ss = []"
      using pk' a(3) used' by (rule winners_used)
    then have sc: "s = a" "c = snd (exec tbl a)" using Cons.prems(2) True by (auto simp: winners_Cons)
    have "getQR (final tbl (a # ss)) i = Some (markUsed_set t w h r)"
      using final_keeps_used [OF a(3) used', of ss] by simp
    then show ?thesis using sc a by (simp add: triple_def markUsed_set_def)
  next
    case False
    then have "(s, c) \<in> set (winners i (fst (exec tbl a)) ss)"
      using Cons.prems(2) by (auto simp: winners_Cons)
    then show ?thesis using Cons.IH [OF pk'] by simp
  qed
qed

lemma marks_count:
  "length (filter (marks i) ss) =
     length (winners i tbl ss) + length (filter (\<lambda>(s, c). marks i s \<and> c = 0) (observed tbl ss))"
  by (induction ss arbitrary: tbl) (auto simp: winners_def)

text \<open>
  Claim C1 (single use).  Take any table that respects the primary key, any code \<open>i\<close> and any
  sequence of statement runs, which covers every interleaving of any number of claims and
  other requests.  At most one \<open>markUsed\<close> run on \<open>i\<close> sees a change; all the other
  \<open>markUsed\<close> runs on \<open>i\<close> see none; the run that sees a change sees exactly one, and its
  three parameters are the consumption columns of \<open>i\<close> at the end of the sequence; and
  from the moment the row of \<open>i\<close> has \<open>used_at\<close> set, its three consumption columns never
  differ from what they are then.  So at most one triple is ever stored for the code.
\<close>

theorem single_use:
  assumes "primary_key tbl"
  shows "length (winners i tbl ss) \<le> 1 \<and>
         length (filter (marks i) ss) \<le> Suc (length (filter (\<lambda>(s, c). marks i s \<and> c = 0) (observed tbl ss))) \<and>
         (\<forall>s c. (s, c) \<in> set (winners i tbl ss) \<longrightarrow>
            (\<exists>t w h. s = MarkUsed t w h i \<and> c = 1 \<and> triple (final tbl ss) i = Some (Some t, Some w, Some h))) \<and>
         (\<forall>p q r. ss = p @ q \<and> getQR (final tbl p) i = Some r \<and> used_at r \<noteq> None \<longrightarrow>
            triple (final tbl ss) i = triple (final tbl p) i)"
proof -
  have a: "length (winners i tbl ss) \<le> 1" using assms by (rule winners_le1)
  have b: "length (filter (marks i) ss) \<le> Suc (length (filter (\<lambda>(s, c). marks i s \<and> c = 0) (observed tbl ss)))"
    using a marks_count [of i ss tbl] by simp
  have c: "\<forall>s c. (s, c) \<in> set (winners i tbl ss) \<longrightarrow>
            (\<exists>t w h. s = MarkUsed t w h i \<and> c = 1 \<and> triple (final tbl ss) i = Some (Some t, Some w, Some h))"
    using winners_triple [OF assms] by blast
  have d: "\<forall>p q r. ss = p @ q \<and> getQR (final tbl p) i = Some r \<and> used_at r \<noteq> None \<longrightarrow>
            triple (final tbl ss) i = triple (final tbl p) i"
    using final_keeps_used by (auto simp: final_append triple_def)
  show ?thesis using a b c d by blast
qed

theorem single_use_witness:
  "primary_key [new_row ''a'' 1] \<and>
   length (winners ''a'' [new_row ''a'' 1]
     [Get ''a'', Get ''a'', MarkUsed 5 ''w1'' ''h1'' ''a'', Get ''a'', MarkUsed 6 ''w2'' ''h2'' ''a'',
      MarkUsed 7 ''w3'' ''h3'' ''a'']) \<le> 1 \<and>
   observed [new_row ''a'' 1]
     [Get ''a'', Get ''a'', MarkUsed 5 ''w1'' ''h1'' ''a'', Get ''a'', MarkUsed 6 ''w2'' ''h2'' ''a'',
      MarkUsed 7 ''w3'' ''h3'' ''a''] =
     [(Get ''a'', 0), (Get ''a'', 0), (MarkUsed 5 ''w1'' ''h1'' ''a'', 1), (Get ''a'', 0),
      (MarkUsed 6 ''w2'' ''h2'' ''a'', 0), (MarkUsed 7 ''w3'' ''h3'' ''a'', 0)] \<and>
   triple (final [new_row ''a'' 1]
     [Get ''a'', Get ''a'', MarkUsed 5 ''w1'' ''h1'' ''a'', Get ''a'', MarkUsed 6 ''w2'' ''h2'' ''a'',
      MarkUsed 7 ''w3'' ''h3'' ''a'']) ''a'' = Some (Some 5, Some ''w1'', Some ''h1'')"
proof -
  have pk: "primary_key [new_row ''a'' 1]" by (simp add: primary_key_def)
  show ?thesis
    using pk single_use [OF pk, of "''a''"
        "[Get ''a'', Get ''a'', MarkUsed 5 ''w1'' ''h1'' ''a'', Get ''a'', MarkUsed 6 ''w2'' ''h2'' ''a'',
          MarkUsed 7 ''w3'' ''h3'' ''a'']"]
    by (simp add: markUsed_def markUsed_where_def markUsed_set_def new_row_def triple_def getQR_def)
qed

section \<open>Idempotent creation\<close>

lemma insertQR_present: "i \<in> set (map row_id tbl) \<Longrightarrow> insertQR tbl i t = (tbl, 0)"
  by (simp add: insertQR_def)

lemma insertQR_has: "i \<in> set (map row_id (fst (insertQR tbl i t)))"
  by (simp add: insertQR_def new_row_def)

lemma pk_filter_eq1:
  assumes "primary_key tbl" "i \<in> set (map row_id tbl)"
  shows "length (filter (\<lambda>r. row_id r = i) tbl) = 1"
proof -
  have "filter (\<lambda>r. row_id r = i) tbl \<noteq> []" using assms(2) by (auto simp: filter_empty_conv)
  then show ?thesis using pk_filter_le1 [OF assms(1), of i]
    by (cases "filter (\<lambda>r. row_id r = i) tbl") auto
qed

text \<open>
  Claim C4 (idempotent creation).  \<open>create\<close> is the \<open>INSERT OR IGNORE\<close> statement.  On a
  table that respects the primary key: when a row with the id exists, the run changes
  nothing and reports no change; and after two runs with the same id (whatever the two
  timestamps) the second run has changed nothing, the table holds exactly one row with that
  id, and that row is the one the first run created, with the first timestamp, or the row
  that was there before the first run if there was one.
\<close>

theorem insertQR_idempotent:
  assumes "primary_key tbl"
  shows "(i \<in> set (map row_id tbl) \<longrightarrow> insertQR tbl i t = (tbl, 0)) \<and>
         insertQR (fst (insertQR tbl i a)) i b = (fst (insertQR tbl i a), 0) \<and>
         length (filter (\<lambda>r. row_id r = i) (fst (insertQR (fst (insertQR tbl i a)) i b))) = 1 \<and>
         getQR (fst (insertQR (fst (insertQR tbl i a)) i b)) i =
           (case getQR tbl i of None \<Rightarrow> Some (new_row i a) | Some r \<Rightarrow> Some r)"
proof -
  have twice: "insertQR (fst (insertQR tbl i a)) i b = (fst (insertQR tbl i a), 0)"
    using insertQR_has [of i tbl a] by (rule insertQR_present)
  have "length (filter (\<lambda>r. row_id r = i) (fst (insertQR tbl i a))) = 1"
    using insertQR_primary_key [OF assms] insertQR_has by (rule pk_filter_eq1)
  then show ?thesis using twice by (simp add: insertQR_present getQR_insertQR)
qed

theorem insertQR_idempotent_witness:
  "primary_key [new_row ''b'' 3] \<and>
   insertQR [new_row ''b'' 3] ''a'' 10 = ([new_row ''b'' 3, new_row ''a'' 10], 1) \<and>
   insertQR (fst (insertQR [new_row ''b'' 3] ''a'' 10)) ''a'' 20 = ([new_row ''b'' 3, new_row ''a'' 10], 0) \<and>
   getQR (fst (insertQR (fst (insertQR [new_row ''b'' 3] ''a'' 10)) ''a'' 20)) ''a'' = Some (new_row ''a'' 10) \<and>
   insertQR [new_row ''b'' 3] ''b'' 20 = ([new_row ''b'' 3], 0)"
proof -
  have pk: "primary_key [new_row ''b'' 3]" by (simp add: primary_key_def)
  show ?thesis
    using pk insertQR_idempotent [OF pk, of "''a''" 20 10 20] insertQR_idempotent [OF pk, of "''b''" 20 10 20]
    by (simp add: insertQR_def new_row_def getQR_def)
qed

section \<open>The create loop returns\<close>

lemma js_lt_nat: "js_lt (Fin (of_nat i)) (Fin r) \<longleftrightarrow> i < nat \<lceil>r\<rceil>"
proof -
  have "(of_nat i < r) \<longleftrightarrow> (int i < \<lceil>r\<rceil>)"
    using less_ceiling_iff [of "int i" r] by simp
  then show ?thesis by auto
qed

lemma create_loop_Fin:
  "create_loop gen now (Fin r) i tbl acc =
     Some (final tbl (inserts gen now i (nat \<lceil>r\<rceil>)), acc @ map gen [i..<nat \<lceil>r\<rceil>])"
proof (induction "nat \<lceil>r\<rceil> - i" arbitrary: i tbl acc)
  case 0
  then have "\<not> js_lt (Fin (of_nat i)) (Fin r)" unfolding js_lt_nat by simp
  then show ?case using 0 by (subst create_loop.simps) (simp add: inserts_def)
next
  case (Suc n)
  then have lt: "i < nat \<lceil>r\<rceil>" by simp
  have n: "n = nat \<lceil>r\<rceil> - (i + 1)" using Suc(2) by simp
  have up: "[i..<nat \<lceil>r\<rceil>] = i # [i + 1..<nat \<lceil>r\<rceil>]" using lt by (simp add: upt_conv_Cons)
  show ?case
    using lt Suc(1) [OF n]
    unfolding js_lt_nat [symmetric]
    by (subst create_loop.simps) (simp add: up inserts_def)
qed

lemma create_loop_NaN: "create_loop gen now NaN i tbl acc = Some (tbl, acc)"
  by (subst create_loop.simps) simp

lemma clamp_count_cases:
  "(n = NaN \<and> clamp_count n = NaN) \<or> (\<exists>r. clamp_count n = Fin r \<and> 1 \<le> r \<and> r \<le> 200)"
  by (cases n) (auto simp: clamp_count_def Math_min_def Math_max_def)

section \<open>The consumption columns\<close>

lemma insertQR_consumption_ok: "consumption_ok tbl \<Longrightarrow> consumption_ok (fst (insertQR tbl i t))"
  by (simp add: insertQR_def consumption_ok_def new_row_def unused_def)

lemma markUsed_consumption_ok: "consumption_ok tbl \<Longrightarrow> consumption_ok (fst (markUsed tbl t w h i))"
  by (induction tbl)
     (auto simp: markUsed_def consumption_ok_def markUsed_set_def markUsed_where_def used_def unused_def)

lemma exec_consumption_ok: "consumption_ok tbl \<Longrightarrow> consumption_ok (fst (exec tbl s))"
  by (cases s) (simp_all add: insertQR_consumption_ok markUsed_consumption_ok)

lemma final_consumption_ok: "consumption_ok tbl \<Longrightarrow> consumption_ok (final tbl ss)"
  by (induction ss arbitrary: tbl) (simp_all add: exec_consumption_ok)

lemma create_loop_clamped:
  "\<exists>n. n \<le> 200 \<and> (n = 0 \<longleftrightarrow> x = NaN) \<and>
       create_loop gen now (clamp_count x) 0 tbl [] = Some (final tbl (inserts gen now 0 n), map gen [0..<n])"
proof -
  consider "x = NaN" "clamp_count x = NaN" | r where "clamp_count x = Fin r" "1 \<le> r" "r \<le> 200"
    using clamp_count_cases [of x] by blast
  then show ?thesis
  proof cases
    case 1
    then show ?thesis by (intro exI [of _ 0]) (simp add: create_loop_NaN inserts_def)
  next
    case 2
    have "\<lceil>r\<rceil> \<le> 200" using 2(3) by (simp add: ceiling_le_iff)
    then have a: "nat \<lceil>r\<rceil> \<le> 200" by arith
    have "1 \<le> \<lceil>r\<rceil>" using 2(2) by (simp add: le_ceiling_iff)
    then have b: "nat \<lceil>r\<rceil> \<noteq> 0" by arith
    have c: "x \<noteq> NaN" using 2(1) by (auto simp: clamp_count_def Math_min_def Math_max_def)
    show ?thesis using a b c
      by (intro exI [of _ "nat \<lceil>r\<rceil>"]) (simp add: create_loop_Fin 2(1))
  qed
qed

lemma create_ethers_run:
  "\<exists>n. n \<le> 200 \<and> (n = 0 \<longleftrightarrow> c = Some NaN) \<and> create_ethers gen now tbl c =
     Some (final tbl (inserts gen now 0 n),
           \<lparr>cr_created = n, cr_ids = map gen [0..<n], cr_code = None, cr_claimUrl = None\<rparr>)"
proof -
  obtain n where "n \<le> 200" "n = 0 \<longleftrightarrow> Number_or c 12 = NaN"
    "create_loop gen now (clamp_count (Number_or c 12)) 0 tbl [] = Some (final tbl (inserts gen now 0 n), map gen [0..<n])"
    using create_loop_clamped [of "Number_or c 12" gen now tbl] by blast
  then show ?thesis
    by (intro exI [of _ n]) (auto simp: create_ethers_def Number_or_def split: option.splits)
qed

lemma create_engine_run:
  "\<exists>n. n \<le> 200 \<and> (n = 0 \<longleftrightarrow> c = Some NaN) \<and> create_engine wix gen now tbl c =
     Some (final tbl (inserts gen now 0 n),
           \<lparr>cr_created = n, cr_ids = map gen [0..<n],
            cr_code = (if n = 0 then None else Some (gen 0)),
            cr_claimUrl = Some (wix @ ''?id='' @ (if n = 0 then ''undefined'' else gen 0))\<rparr>)"
proof -
  obtain n where n: "n \<le> 200" "n = 0 \<longleftrightarrow> Number_or c 1 = NaN"
    "create_loop gen now (clamp_count (Number_or c 1)) 0 tbl [] = Some (final tbl (inserts gen now 0 n), map gen [0..<n])"
    using create_loop_clamped [of "Number_or c 1" gen now tbl] by blast
  have "map gen [0..<n] = gen 0 # map gen [1..<n]" if "n \<noteq> 0"
    using that by (simp add: upt_conv_Cons)
  then show ?thesis using n
    by (intro exI [of _ n]) (auto simp: create_engine_def Number_or_def split: option.splits)
qed

lemma claim_settle_run:
  "\<exists>ss. fst (snd (claim_settle minted now tbl c w)) = final tbl ss"
proof (cases minted)
  case (Returns h)
  have "fst (snd (claim_settle minted now tbl c w)) = final tbl [MarkUsed now w h c]"
    by (simp add: claim_settle_def Returns split: prod.splits)
  then show ?thesis by blast
next
  case (Throws x)
  have "fst (snd (claim_settle minted now tbl c w)) = final tbl []"
    by (simp add: claim_settle_def Throws)
  then show ?thesis by blast
qed

lemma claim_ethers_run:
  "\<exists>ss. fst (snd (claim_ethers e isAddress chain now (\<lambda>t. final t others) tbl c w)) = final tbl ss"
proof (cases "claim_check_ethers isAddress tbl c w")
  case (Pair ro fx)
  show ?thesis
  proof (cases ro)
  case None
  obtain ss where "fst (snd (claim_settle (mintTo e isAddress chain w) now (final tbl others) c w)) = final (final tbl others) ss"
    using claim_settle_run by blast
  then have "fst (snd (claim_ethers e isAddress chain now (\<lambda>t. final t others) tbl c w)) = final tbl (others @ ss)"
    using None Pair by (auto simp: claim_ethers_def final_append split: prod.splits)
  then show ?thesis by blast
next
  case (Some r)
  then have "fst (snd (claim_ethers e isAddress chain now (\<lambda>t. final t others) tbl c w)) = final tbl []"
    using Pair by (simp add: claim_ethers_def)
  then show ?thesis by blast
qed
qed

lemma claim_engine_run:
  "\<exists>ss. fst (snd (claim_engine e engine now (\<lambda>t. final t others) tbl c w)) = final tbl ss"
proof (cases "claim_check_engine e tbl c w")
  case (Pair ro fx)
  show ?thesis
  proof (cases ro)
  case None
  obtain ss where "fst (snd (claim_settle (engine w) now (final tbl others) c w)) = final (final tbl others) ss"
    using claim_settle_run by blast
  then have "fst (snd (claim_engine e engine now (\<lambda>t. final t others) tbl c w)) = final tbl (others @ ss)"
    using None Pair by (auto simp: claim_engine_def final_append split: prod.splits)
  then show ?thesis by blast
next
  case (Some r)
  then have "fst (snd (claim_engine e engine now (\<lambda>t. final t others) tbl c w)) = final tbl []"
    using Pair by (simp add: claim_engine_def)
  then show ?thesis by blast
qed
qed

lemma consumption_ok_from_empty: "consumption_ok (final [] ss)"
  by (rule final_consumption_ok) (simp add: consumption_ok_def)

text \<open>
  Claim C3 (consumption columns).  \<open>consumption_ok\<close> says that in every row the columns
  \<open>used_at\<close>, \<open>used_by\<close> and \<open>tx_hash\<close> are all \<open>NULL\<close> or all set.  If a table satisfies it, so
  does the table after any sequence of statement runs, and a row whose \<open>used_at\<close> is set is
  still there, unchanged, after the sequence: nothing clears or overwrites its three columns.
  The handlers are covered because what they do to the table is such a sequence: the
  create handlers of both variants return, and leave the table of a run of \<open>Insert\<close>s, and
  the claim handlers of both variants leave the table of a run, whatever the other
  requests \<open>others\<close> do while the claim awaits the minter; reads change nothing.
\<close>

theorem consumption_fields_invariant:
  assumes "consumption_ok tbl"
  shows "consumption_ok (final tbl ss) \<and>
         (\<forall>i r. getQR tbl i = Some r \<and> used_at r \<noteq> None \<longrightarrow> getQR (final tbl ss) i = Some r) \<and>
         (\<exists>ss. map_option fst (create_ethers gen now tbl n) = Some (final tbl ss)) \<and>
         (\<exists>ss. map_option fst (create_engine wix gen now tbl n) = Some (final tbl ss)) \<and>
         (\<exists>ss. fst (snd (claim_ethers e isAddress chain now (\<lambda>t. final t others) tbl c w)) = final tbl ss) \<and>
         (\<exists>ss. fst (snd (claim_engine e' engine now (\<lambda>t. final t others) tbl c w)) = final tbl ss)"
proof -
  have 1: "consumption_ok (final tbl ss)" using assms by (rule final_consumption_ok)
  have 2: "\<forall>i r. getQR tbl i = Some r \<and> used_at r \<noteq> None \<longrightarrow> getQR (final tbl ss) i = Some r"
    using final_keeps_used by blast
  have 3: "\<exists>ss. map_option fst (create_ethers gen now tbl n) = Some (final tbl ss)"
    using create_ethers_run [of n gen now tbl] by auto
  have 4: "\<exists>ss. map_option fst (create_engine wix gen now tbl n) = Some (final tbl ss)"
    using create_engine_run [of n wix gen now tbl] by auto
  show ?thesis using 1 2 3 4 claim_ethers_run claim_engine_run by blast
qed

theorem consumption_fields_invariant_witness:
  "consumption_ok [new_row ''a'' 1,
      \<lparr>row_id = ''b'', created_at = 2, used_at = Some 3, used_by = Some ''w0'', tx_hash = Some ''h0''\<rparr>] \<and>
   consumption_ok (final [new_row ''a'' 1,
      \<lparr>row_id = ''b'', created_at = 2, used_at = Some 3, used_by = Some ''w0'', tx_hash = Some ''h0''\<rparr>]
      [MarkUsed 5 ''w1'' ''h1'' ''a'', MarkUsed 6 ''w2'' ''h2'' ''b'', Insert ''a'' 9, MarkUsed 7 ''w3'' ''h3'' ''a'']) \<and>
   final [new_row ''a'' 1,
      \<lparr>row_id = ''b'', created_at = 2, used_at = Some 3, used_by = Some ''w0'', tx_hash = Some ''h0''\<rparr>]
      [MarkUsed 5 ''w1'' ''h1'' ''a'', MarkUsed 6 ''w2'' ''h2'' ''b'', Insert ''a'' 9, MarkUsed 7 ''w3'' ''h3'' ''a''] =
     [\<lparr>row_id = ''a'', created_at = 1, used_at = Some 5, used_by = Some ''w1'', tx_hash = Some ''h1''\<rparr>,
      \<lparr>row_id = ''b'', created_at = 2, used_at = Some 3, used_by = Some ''w0'', tx_hash = Some ''h0''\<rparr>]"
proof -
  have ok: "consumption_ok [new_row ''a'' 1,
      \<lparr>row_id = ''b'', created_at = 2, used_at = Some 3, used_by = Some ''w0'', tx_hash = Some ''h0''\<rparr>]"
    by (simp add: consumption_ok_def new_row_def unused_def used_def)
  show ?thesis
    using ok consumption_fields_invariant [OF ok,
        where ss = "[MarkUsed 5 ''w1'' ''h1'' ''a'', MarkUsed 6 ''w2'' ''h2'' ''b'', Insert ''a'' 9, MarkUsed 7 ''w3'' ''h3'' ''a'']"]
    by (simp add: markUsed_def markUsed_where_def markUsed_set_def new_row_def insertQR_def)
qed

section \<open>What a batch adds to the table\<close>

lemma final_Inserts:
  "\<exists>ks. final tbl (map (\<lambda>k. Insert k now) js) = tbl @ map (\<lambda>k. new_row k now) ks \<and>
        set ks \<subseteq> set js \<and> length ks \<le> length js \<and>
        (distinct js \<and> set js \<inter> set (map row_id tbl) = {} \<longrightarrow> ks = js)"
proof (induction js arbitrary: tbl)
  case Nil
  show ?case by simp
next
  case (Cons j js)
  show ?case
  proof (cases "j \<in> set (map row_id tbl)")
    case True
    obtain ks where "final tbl (map (\<lambda>k. Insert k now) js) = tbl @ map (\<lambda>k. new_row k now) ks"
        "set ks \<subseteq> set js" "length ks \<le> length js"
      using Cons.IH [of tbl] by blast
    then show ?thesis using True
      by (intro exI [of _ ks]) (auto simp: insertQR_def)
  next
    case False
    obtain ks where ks: "final (tbl @ [new_row j now]) (map (\<lambda>k. Insert k now) js) =
          (tbl @ [new_row j now]) @ map (\<lambda>k. new_row k now) ks"
        "set ks \<subseteq> set js" "length ks \<le> length js"
        "distinct js \<and> set js \<inter> set (map row_id (tbl @ [new_row j now])) = {} \<longrightarrow> ks = js"
      using Cons.IH [of "tbl @ [new_row j now]"] by blast
    have "distinct (j # js) \<and> set (j # js) \<inter> set (map row_id tbl) = {} \<longrightarrow> j # ks = j # js"
      using ks(4) by (auto simp: new_row_def)
    then show ?thesis using False ks(1,2,3)
      by (intro exI [of _ "j # ks"]) (auto simp: insertQR_def)
  qed
qed

lemma inserts_map: "inserts gen now i n = map (\<lambda>k. Insert k now) (map gen [i..<n])"
  by (simp add: inserts_def)

lemma create_table:
  assumes "map_option fst (create_ethers gen now tbl c) = Some tbl' \<or>
           map_option fst (create_engine wix gen now tbl c) = Some tbl'"
  shows "\<exists>n ks. n \<le> 200 \<and> tbl' = tbl @ map (\<lambda>k. new_row k now) ks \<and> length ks \<le> n \<and>
           set ks \<subseteq> gen ` {0..<n} \<and>
           (distinct (map gen [0..<n]) \<and> gen ` {0..<n} \<inter> set (map row_id tbl) = {} \<longrightarrow> ks = map gen [0..<n])"
proof -
  have "\<exists>n. n \<le> 200 \<and> tbl' = final tbl (inserts gen now 0 n)"
    using assms
  proof
    assume a: "map_option fst (create_ethers gen now tbl c) = Some tbl'"
    obtain n where "n \<le> 200" "create_ethers gen now tbl c =
        Some (final tbl (inserts gen now 0 n),
           \<lparr>cr_created = n, cr_ids = map gen [0..<n], cr_code = None, cr_claimUrl = None\<rparr>)"
      using create_ethers_run [of c gen now tbl] by blast
    then show ?thesis using a by (intro exI [of _ n]) simp
  next
    assume a: "map_option fst (create_engine wix gen now tbl c) = Some tbl'"
    obtain n where "n \<le> 200" "create_engine wix gen now tbl c =
        Some (final tbl (inserts gen now 0 n),
           \<lparr>cr_created = n, cr_ids = map gen [0..<n],
            cr_code = (if n = 0 then None else Some (gen 0)),
            cr_claimUrl = Some (wix @ ''?id='' @ (if n = 0 then ''undefined'' else gen 0))\<rparr>)"
      using create_engine_run [of c wix gen now tbl] by blast
    then show ?thesis using a by (intro exI [of _ n]) simp
  qed
  then obtain n where n: "n \<le> 200" "tbl' = final tbl (inserts gen now 0 n)" by blast
  obtain ks where "final tbl (map (\<lambda>k. Insert k now) (map gen [0..<n])) = tbl @ map (\<lambda>k. new_row k now) ks"
      "set ks \<subseteq> set (map gen [0..<n])" "length ks \<le> length (map gen [0..<n])"
      "distinct (map gen [0..<n]) \<and> set (map gen [0..<n]) \<inter> set (map row_id tbl) = {} \<longrightarrow> ks = map gen [0..<n]"
    using final_Inserts [of tbl now "map gen [0..<n]"] by blast
  then show ?thesis using n
    by (intro exI [of _ n] exI [of _ ks]) (auto simp: inserts_map)
qed

section \<open>Properties of the create handler\<close>

text \<open>
  For every request whose count is not mapped to \<open>NaN\<close>, both variants return, report
  between 1 and 200 identifiers and add at most 200 rows; a count of 10000 gives exactly 200
  identifiers.
\<close>

lemma create_count_clamped:
  assumes "c \<noteq> Some NaN"
  shows "\<exists>tbl' r. create_ethers gen now tbl c = Some (tbl', r) \<and> 1 \<le> cr_created r \<and> cr_created r \<le> 200 \<and>
           length (cr_ids r) = cr_created r \<and> length tbl' \<le> length tbl + 200"
    and "\<exists>tbl' r. create_engine wix gen now tbl c = Some (tbl', r) \<and> 1 \<le> cr_created r \<and> cr_created r \<le> 200 \<and>
           length (cr_ids r) = cr_created r \<and> length tbl' \<le> length tbl + 200"
proof -
  obtain n where n: "n \<le> 200" "n = 0 \<longleftrightarrow> c = Some NaN"
      "create_ethers gen now tbl c = Some (final tbl (inserts gen now 0 n),
           \<lparr>cr_created = n, cr_ids = map gen [0..<n], cr_code = None, cr_claimUrl = None\<rparr>)"
    using create_ethers_run [of c gen now tbl] by blast
  obtain m ks where "m \<le> 200" "final tbl (inserts gen now 0 n) = tbl @ map (\<lambda>k. new_row k now) ks" "length ks \<le> m"
    using create_table [of gen now tbl c "final tbl (inserts gen now 0 n)"] n(3) by auto
  then have "length (final tbl (inserts gen now 0 n)) \<le> length tbl + 200" by simp
  then show "\<exists>tbl' r. create_ethers gen now tbl c = Some (tbl', r) \<and> 1 \<le> cr_created r \<and> cr_created r \<le> 200 \<and>
           length (cr_ids r) = cr_created r \<and> length tbl' \<le> length tbl + 200"
    using n assms by simp
next
  obtain n where n: "n \<le> 200" "n = 0 \<longleftrightarrow> c = Some NaN"
      "create_engine wix gen now tbl c = Some (final tbl (inserts gen now 0 n),
           \<lparr>cr_created = n, cr_ids = map gen [0..<n],
            cr_code = (if n = 0 then None else Some (gen 0)),
            cr_claimUrl = Some (wix @ ''?id='' @ (if n = 0 then ''undefined'' else gen 0))\<rparr>)"
    using create_engine_run [of c wix gen now tbl] by blast
  obtain m ks where "m \<le> 200" "final tbl (inserts gen now 0 n) = tbl @ map (\<lambda>k. new_row k now) ks" "length ks \<le> m"
    using create_table [of gen now tbl c "final tbl (inserts gen now 0 n)" wix] n(3) by auto
  then have "length (final tbl (inserts gen now 0 n)) \<le> length tbl + 200" by simp
  then show "\<exists>tbl' r. create_engine wix gen now tbl c = Some (tbl', r) \<and> 1 \<le> cr_created r \<and> cr_created r \<le> 200 \<and>
           length (cr_ids r) = cr_created r \<and> length tbl' \<le> length tbl + 200"
    using n assms by simp
qed

lemma create_count_10000:
  "\<exists>tbl'. create_ethers gen now tbl (Some (Fin 10000)) =
      Some (tbl', \<lparr>cr_created = 200, cr_ids = map gen [0..<200], cr_code = None, cr_claimUrl = None\<rparr>)"
proof -
  have c: "clamp_count (Fin 10000) = Fin 200" by (simp add: clamp_count_def Math_min_def Math_max_def)
  have n: "nat \<lceil>200 :: rat\<rceil> = 200" by simp
  obtain tbl' where "final tbl (inserts gen now 0 200) = tbl'" by blast
  then show ?thesis
    unfolding create_ethers_def Number_or_def option.case c create_loop_Fin n by simp
qed

text \<open>
  Claim C5 (count clamped to 1..200), at the input where the code departs from it.  When
  the request's \<open>count\<close> is a truthy value that \<open>Number\<close> maps to \<open>NaN\<close> (a string such as
  \<open>abc\<close>, or an object), \<open>Math.min\<close> and \<open>Math.max\<close> pass the \<open>NaN\<close> on, the loop condition
  \<open>i < NaN\<close> is false at once, and both variants answer with no identifier at all, leaving
  the table as it was.
\<close>

theorem create_count_NaN:
  "create_ethers gen now tbl (Some NaN) =
     Some (tbl, \<lparr>cr_created = 0, cr_ids = [], cr_code = None, cr_claimUrl = None\<rparr>) \<and>
   create_engine wix gen now tbl (Some NaN) =
     Some (tbl, \<lparr>cr_created = 0, cr_ids = [], cr_code = None, cr_claimUrl = Some (wix @ ''?id=undefined'')\<rparr>)"
  by (simp add: create_ethers_def create_engine_def Number_or_def clamp_count_def Math_min_def Math_max_def
      create_loop_NaN)

lemma sorted_desc_map: "sorted_wrt desc_created xs = sorted_wrt (\<lambda>a b. b \<le> a) (map created_at xs)"
proof -
  have "desc_created = (\<lambda>x y. created_at y \<le> created_at x)"
    by (intro ext) (simp add: desc_created_def)
  then show ?thesis by (simp add: sorted_wrt_map)
qed

lemma listQR_order_swap:
  assumes "listQR_order tbl xs" "i < length xs" "j < length xs" "created_at (xs ! i) = created_at (xs ! j)"
  shows "listQR_order tbl (xs[i := xs ! j, j := xs ! i])"
proof -
  have "map created_at (xs[i := xs ! j, j := xs ! i]) =
          (map created_at xs)[i := (map created_at xs) ! i, j := (map created_at xs) ! j]"
    using assms(2,3,4) by (simp add: map_update)
  then have "map created_at (xs[i := xs ! j, j := xs ! i]) = map created_at xs" by simp
  then have "sorted_wrt desc_created (xs[i := xs ! j, j := xs ! i])"
    using assms(1) by (simp add: sorted_desc_map listQR_order_def)
  moreover have "mset (xs[i := xs ! j, j := xs ! i]) = mset tbl"
    using assms(1) mset_swap [OF assms(3,2)] by (simp add: listQR_order_def)
  ultimately show ?thesis by (simp add: listQR_order_def)
qed

text \<open>
  Claim C10 (one timestamp for a batch).  The create handler of either variant reads the
  clock once, so the table it leaves is the old table followed by new rows that all carry
  that one \<open>created_at\<close>.  Any two rows the batch added therefore tie under the key that
  \<open>listQR\<close> orders by, in both directions, and whenever an arrangement of the table is an
  admissible order of the listing, so is the arrangement with two rows of the batch
  exchanged: the listing does not fix their relative order.
\<close>

theorem batch_shares_created_at:
  assumes "map_option fst (create_ethers gen now tbl c) = Some tbl' \<or>
           map_option fst (create_engine wix gen now tbl c) = Some tbl'"
  shows "(\<exists>ks. tbl' = tbl @ map (\<lambda>k. new_row k now) ks) \<and>
         (\<forall>x y. x \<in> set tbl' - set tbl \<and> y \<in> set tbl' - set tbl \<longrightarrow>
            created_at x = now \<and> created_at y = now \<and> desc_created x y \<and> desc_created y x) \<and>
         (\<forall>xs i j. listQR_order tbl' xs \<and> i < length xs \<and> j < length xs \<and>
                   xs ! i \<notin> set tbl \<and> xs ! j \<notin> set tbl \<longrightarrow>
            listQR_order tbl' (xs[i := xs ! j, j := xs ! i]))"
proof -
  obtain ks where ks: "tbl' = tbl @ map (\<lambda>k. new_row k now) ks"
    using create_table [OF assms] by blast
  have new: "created_at x = now" if "x \<in> set tbl' - set tbl" for x
    using that ks by (auto simp: new_row_def)
  have swap: "listQR_order tbl' (xs[i := xs ! j, j := xs ! i])"
    if "listQR_order tbl' xs" "i < length xs" "j < length xs" "xs ! i \<notin> set tbl" "xs ! j \<notin> set tbl"
    for xs i j
  proof -
    have "set xs = set tbl'" using that(1) by (auto simp: listQR_order_def dest: mset_eq_setD)
    then have "xs ! i \<in> set tbl' - set tbl" "xs ! j \<in> set tbl' - set tbl"
      using that(2-5) nth_mem by blast+
    then have "created_at (xs ! i) = created_at (xs ! j)" using new by simp
    then show ?thesis using that(1,2,3) by (intro listQR_order_swap)
  qed
  have a: "\<exists>ks. tbl' = tbl @ map (\<lambda>k. new_row k now) ks" using ks by blast
  have b: "\<forall>x y. x \<in> set tbl' - set tbl \<and> y \<in> set tbl' - set tbl \<longrightarrow>
            created_at x = now \<and> created_at y = now \<and> desc_created x y \<and> desc_created y x"
    using new by (simp add: desc_created_def)
  have c: "\<forall>xs i j. listQR_order tbl' xs \<and> i < length xs \<and> j < length xs \<and>
                   xs ! i \<notin> set tbl \<and> xs ! j \<notin> set tbl \<longrightarrow>
            listQR_order tbl' (xs[i := xs ! j, j := xs ! i])"
    using swap by blast
  show ?thesis using a b c by (intro conjI)
qed

lemma listQR_take: "listQR_order tbl xs \<Longrightarrow> listQR tbl n (take n xs)"
  by (auto simp: listQR_def)

theorem batch_shares_created_at_witness:
  "map_option fst (create_ethers gen_ab 7 [] (Some (Fin 2))) = Some [new_row ''a'' 7, new_row ''b'' 7] \<and>
   listQR [new_row ''a'' 7, new_row ''b'' 7] 50 [new_row ''a'' 7, new_row ''b'' 7] \<and>
   listQR [new_row ''a'' 7, new_row ''b'' 7] 50 [new_row ''b'' 7, new_row ''a'' 7]"
proof -
  have two: "[0..<2] = [0, Suc 0]" by (simp add: upt_conv_Cons)
  have "clamp_count (Fin 2) = Fin 2" by (simp add: clamp_count_def Math_min_def Math_max_def)
  then have run: "map_option fst (create_ethers gen_ab 7 [] (Some (Fin 2))) = Some [new_row ''a'' 7, new_row ''b'' 7]"
    by (simp add: create_ethers_def Number_or_def create_loop_Fin inserts_def two insertQR_def gen_ab_def new_row_def)
  have ord: "listQR_order [new_row ''a'' 7, new_row ''b'' 7] [new_row ''a'' 7, new_row ''b'' 7]"
    by (simp add: listQR_order_def desc_created_def new_row_def)
  have "listQR_order [new_row ''a'' 7, new_row ''b'' 7] [new_row ''a'' 7, new_row ''b'' 7] \<and>
        (0::nat) < length [new_row ''a'' 7, new_row ''b'' 7] \<and> (1::nat) < length [new_row ''a'' 7, new_row ''b'' 7] \<and>
        [new_row ''a'' 7, new_row ''b'' 7] ! 0 \<notin> set [] \<and> [new_row ''a'' 7, new_row ''b'' 7] ! 1 \<notin> set []"
    using ord by simp
  then have "listQR_order [new_row ''a'' 7, new_row ''b'' 7]
      ([new_row ''a'' 7, new_row ''b'' 7][0 := [new_row ''a'' 7, new_row ''b'' 7] ! 1,
         1 := [new_row ''a'' 7, new_row ''b'' 7] ! 0])"
    using batch_shares_created_at [of gen_ab 7 "[]" "Some (Fin 2)" "[new_row ''a'' 7, new_row ''b'' 7]"] run
    by blast
  then have swapped: "listQR_order [new_row ''a'' 7, new_row ''b'' 7] [new_row ''b'' 7, new_row ''a'' 7]"
    by simp
  show ?thesis
    using run listQR_take [OF ord, of 50] listQR_take [OF swapped, of 50] by simp
qed

section \<open>Properties of the claim handler\<close>



lemma check_ethers_cases:
  "claim_check_ethers isAddress tbl c w =
     (if c = [] then (Some (fail_with 400 ''Missing code''), [])
      else if \<not> isAddress w then (Some (fail_with 400 ''Invalid walletAddress''), [])
      else (case getQR tbl c of
              None \<Rightarrow> Some (fail_with 404 ''QR not found'')
            | Some row \<Rightarrow> if truthy_int (used_at row) then Some (fail_with 409 ''Already claimed'') else None,
            [DbGet c]))"
  by (simp add: claim_check_ethers_def split: option.splits)

lemma check_engine_cases:
  "claim_check_engine g tbl c w =
     (if \<not> envOk g then (Some (fail_with 500 ''Missing env vars''), [])
      else if c = [] then (Some (fail_with 400 ''Missing code''), [])
      else if bad_wallet w then (Some (fail_with 400 ''Invalid walletAddress''), [])
      else (case getQR tbl c of
              None \<Rightarrow> Some (fail_with 404 ''QR not found'')
            | Some row \<Rightarrow> if truthy_int (used_at row) then Some (fail_with 409 ''Already claimed'') else None,
            [DbGet c]))"
  by (simp add: claim_check_engine_def split: option.splits)

lemma claim_ethers_early:
  "claim_check_ethers isAddress tbl c w = (Some r, fx) \<Longrightarrow>
     claim_ethers e isAddress chain now during tbl c w = (r, tbl, fx)"
  by (simp add: claim_ethers_def)

lemma claim_engine_early:
  "claim_check_engine g tbl c w = (Some r, fx) \<Longrightarrow>
     claim_engine g engine now during tbl c w = (r, tbl, fx)"
  by (simp add: claim_engine_def)

lemma claim_ethers_late:
  "claim_check_ethers isAddress tbl c w = (None, fx) \<Longrightarrow>
     claim_ethers e isAddress chain now during tbl c w =
       (fst (claim_settle (mintTo e isAddress chain w) now (during tbl) c w),
        fst (snd (claim_settle (mintTo e isAddress chain w) now (during tbl) c w)),
        fx @ snd (snd (claim_settle (mintTo e isAddress chain w) now (during tbl) c w)))"
  by (simp add: claim_ethers_def split: prod.splits)

lemma claim_engine_late:
  "claim_check_engine g tbl c w = (None, fx) \<Longrightarrow>
     claim_engine g engine now during tbl c w =
       (fst (claim_settle (engine w) now (during tbl) c w),
        fst (snd (claim_settle (engine w) now (during tbl) c w)),
        fx @ snd (snd (claim_settle (engine w) now (during tbl) c w)))"
  by (simp add: claim_engine_def split: prod.splits)

lemma check_effects:
  "claim_check_ethers isAddress tbl c w = (None, fx) \<Longrightarrow> fx = [DbGet c]"
  "claim_check_engine g tbl c w = (None, fx) \<Longrightarrow> fx = [DbGet c]"
  by (auto simp: check_ethers_cases check_engine_cases split: if_splits)

lemma settle_effects: "\<exists>rest. snd (snd (claim_settle minted now tbl c w)) = Mint w # rest"
  by (cases minted) (auto simp: claim_settle_def split: prod.splits)




lemma wallet_1_hex: "spec_hex_address wallet_1"
  by (simp add: spec_hex_address_def wallet_1_def is_hex_def list_all_iff)

lemma wallet_z_not_hex: "\<not> spec_hex_address wallet_z"
  by (simp add: spec_hex_address_def wallet_z_def is_hex_def list_all_iff)


lemma engine_ready_ok: "envOk engine_ready"
  by (simp add: envOk_def engine_ready_def)




lemma insertQR_no_epoch: "no_epoch tbl \<Longrightarrow> no_epoch (fst (insertQR tbl i t))"
  by (simp add: insertQR_def no_epoch_def new_row_def)

lemma markUsed_no_epoch: "no_epoch tbl \<Longrightarrow> t \<noteq> 0 \<Longrightarrow> no_epoch (fst (markUsed tbl t w h i))"
  by (induction tbl) (auto simp: markUsed_def no_epoch_def markUsed_set_def)

lemma exec_no_epoch: "no_epoch tbl \<Longrightarrow> clock_ok s \<Longrightarrow> no_epoch (fst (exec tbl s))"
  by (cases s) (simp_all add: insertQR_no_epoch markUsed_no_epoch)

lemma final_no_epoch: "no_epoch tbl \<Longrightarrow> list_all clock_ok ss \<Longrightarrow> no_epoch (final tbl ss)"
  by (induction ss arbitrary: tbl) (simp_all add: exec_no_epoch)

lemma no_epoch_from_empty: "list_all clock_ok ss \<Longrightarrow> no_epoch (final [] ss)"
  by (rule final_no_epoch) (simp_all add: no_epoch_def)

lemma no_epoch_truthy:
  assumes "no_epoch tbl" "getQR tbl c = Some r" "used_at r \<noteq> None"
  shows "truthy_int (used_at r)"
proof -
  have "r \<in> set tbl" using getQR_Some [OF assms(2)] by simp
  then have "used_at r \<noteq> Some 0" using assms(1) by (simp add: no_epoch_def list_all_iff)
  then show ?thesis using assms(3) by (auto simp: truthy_int_def split: option.splits)
qed

lemma settle_no_epoch:
  assumes "no_epoch tbl" "now \<noteq> 0"
  shows "no_epoch (fst (snd (claim_settle minted now tbl c w)))"
proof (cases minted)
  case (Returns h)
  have "fst (snd (claim_settle (Returns h) now tbl c w)) = fst (markUsed tbl now w h c)"
    by (simp add: claim_settle_def split: prod.splits)
  then show ?thesis using Returns assms by (simp add: markUsed_no_epoch)
next
  case (Throws x)
  then show ?thesis using assms by (simp add: claim_settle_def)
qed

lemma claim_ethers_no_epoch:
  assumes "no_epoch tbl" "now \<noteq> 0" "list_all clock_ok others"
  shows "no_epoch (fst (snd (claim_ethers e isAddress chain now (\<lambda>t. final t others) tbl c w)))"
proof (cases "claim_check_ethers isAddress tbl c w")
  case (Pair ro fx)
  show ?thesis
  proof (cases ro)
    case None
    then show ?thesis
      using Pair settle_no_epoch [OF final_no_epoch [OF assms(1,3)] assms(2)]
      by (simp add: claim_ethers_late)
  next
    case (Some r)
    then show ?thesis using Pair assms(1) by (simp add: claim_ethers_early)
  qed
qed

lemma claim_engine_no_epoch:
  assumes "no_epoch tbl" "now \<noteq> 0" "list_all clock_ok others"
  shows "no_epoch (fst (snd (claim_engine g engine now (\<lambda>t. final t others) tbl c w)))"
proof (cases "claim_check_engine g tbl c w")
  case (Pair ro fx)
  show ?thesis
  proof (cases ro)
    case None
    then show ?thesis
      using Pair settle_no_epoch [OF final_no_epoch [OF assms(1,3)] assms(2)]
      by (simp add: claim_engine_late)
  next
    case (Some r)
    then show ?thesis using Pair assms(1) by (simp add: claim_engine_early)
  qed
qed

text \<open>
  Claim C7 (unknown and used codes).  Take a table in which no row stores the clock reading
  0 as \<open>used_at\<close>, and a request that passes validation (in the Engine variant, with the
  configuration complete).  When no row has the code, the answer is status 404; when the
  row's \<open>used_at\<close> is set, the answer is status 409 \<open>Already claimed\<close>.  In both cases the only
  effect is the lookup: the minter is not called, \<open>markUsed\<close> is not run, and the table is
  returned as it was.  The condition on the table is kept by every sequence of statement
  runs that binds no clock reading 0, and by the claim handlers of both variants run at
  such a reading, so it holds of every table the server reaches from one that has it, the
  empty table among them, except through a claim settled in the first millisecond of 1970.
\<close>

theorem claim_lookup_rejections:
  assumes "no_epoch tbl"
  shows
  "(c \<noteq> [] \<and> isAddress w \<and> getQR tbl c = None \<longrightarrow>
      claim_ethers e isAddress chain now during tbl c w = (fail_with 404 ''QR not found'', tbl, [DbGet c])) \<and>
   (c \<noteq> [] \<and> isAddress w \<and> getQR tbl c = Some r \<and> used_at r \<noteq> None \<longrightarrow>
      claim_ethers e isAddress chain now during tbl c w = (fail_with 409 ''Already claimed'', tbl, [DbGet c])) \<and>
   (envOk g \<and> c \<noteq> [] \<and> \<not> bad_wallet w \<and> getQR tbl c = None \<longrightarrow>
      claim_engine g engine now during tbl c w = (fail_with 404 ''QR not found'', tbl, [DbGet c])) \<and>
   (envOk g \<and> c \<noteq> [] \<and> \<not> bad_wallet w \<and> getQR tbl c = Some r \<and> used_at r \<noteq> None \<longrightarrow>
      claim_engine g engine now during tbl c w = (fail_with 409 ''Already claimed'', tbl, [DbGet c])) \<and>
   (list_all clock_ok ss \<longrightarrow> no_epoch (final tbl ss)) \<and>
   (now \<noteq> 0 \<and> list_all clock_ok others \<longrightarrow>
      no_epoch (fst (snd (claim_ethers e isAddress chain now (\<lambda>t. final t others) tbl c w))) \<and>
      no_epoch (fst (snd (claim_engine g engine now (\<lambda>t. final t others) tbl c w))))"
proof -
  have t: "getQR tbl c = Some r \<and> used_at r \<noteq> None \<longrightarrow> truthy_int (used_at r)"
    using no_epoch_truthy [OF assms] by blast
  have 1: "c \<noteq> [] \<and> isAddress w \<and> getQR tbl c = None \<longrightarrow>
      claim_ethers e isAddress chain now during tbl c w = (fail_with 404 ''QR not found'', tbl, [DbGet c])"
    by (simp add: claim_ethers_early check_ethers_cases)
  have 2: "c \<noteq> [] \<and> isAddress w \<and> getQR tbl c = Some r \<and> used_at r \<noteq> None \<longrightarrow>
      claim_ethers e isAddress chain now during tbl c w = (fail_with 409 ''Already claimed'', tbl, [DbGet c])"
    using t by (auto simp: claim_ethers_early check_ethers_cases)
  have 3: "envOk g \<and> c \<noteq> [] \<and> \<not> bad_wallet w \<and> getQR tbl c = None \<longrightarrow>
      claim_engine g engine now during tbl c w = (fail_with 404 ''QR not found'', tbl, [DbGet c])"
    by (simp add: claim_engine_early check_engine_cases)
  have 4: "envOk g \<and> c \<noteq> [] \<and> \<not> bad_wallet w \<and> getQR tbl c = Some r \<and> used_at r \<noteq> None \<longrightarrow>
      claim_engine g engine now during tbl c w = (fail_with 409 ''Already claimed'', tbl, [DbGet c])"
    using t by (auto simp: claim_engine_early check_engine_cases)
  have 5: "list_all clock_ok ss \<longrightarrow> no_epoch (final tbl ss)"
    using final_no_epoch [OF assms] by blast
  have 6: "now \<noteq> 0 \<and> list_all clock_ok others \<longrightarrow>
      no_epoch (fst (snd (claim_ethers e isAddress chain now (\<lambda>t. final t others) tbl c w))) \<and>
      no_epoch (fst (snd (claim_engine g engine now (\<lambda>t. final t others) tbl c w)))"
    using claim_ethers_no_epoch [OF assms] claim_engine_no_epoch [OF assms] by blast
  show ?thesis using 1 2 3 4 5 6 by (intro conjI)
qed

theorem claim_lookup_rejections_witness:
  "no_epoch [row_used] \<and>
   claim_ethers env_ready spec_hex_address chain_mints 9 (\<lambda>t. t) [row_used] ''d'' wallet_1 =
     (fail_with 404 ''QR not found'', [row_used], [DbGet ''d'']) \<and>
   claim_ethers env_ready spec_hex_address chain_mints 9 (\<lambda>t. t) [row_used] ''c'' wallet_1 =
     (fail_with 409 ''Already claimed'', [row_used], [DbGet ''c'']) \<and>
   claim_engine engine_ready engine_queues 9 (\<lambda>t. t) [row_used] ''d'' wallet_1 =
     (fail_with 404 ''QR not found'', [row_used], [DbGet ''d'']) \<and>
   claim_engine engine_ready engine_queues 9 (\<lambda>t. t) [row_used] ''c'' wallet_1 =
     (fail_with 409 ''Already claimed'', [row_used], [DbGet ''c'']) \<and>
   no_epoch (final [row_used] [Insert ''d'' 3, MarkUsed 9 wallet_1 ''0xreceipt'' ''d''])"
proof -
  have ne: "no_epoch [row_used]" by (simp add: no_epoch_def row_used_def)
  have g: "getQR [row_used] ''d'' = None" "getQR [row_used] ''c'' = Some row_used" "used_at row_used \<noteq> None"
    by (simp_all add: getQR_def row_used_def)
  have b: "\<not> bad_wallet wallet_1" by (simp add: bad_wallet_def wallet_1_def)
  have ck: "list_all clock_ok [Insert ''d'' 3, MarkUsed 9 wallet_1 ''0xreceipt'' ''d'']" by simp
  note v = claim_lookup_rejections [OF ne, where now = 9 and during = "\<lambda>t. t"
      and e = env_ready and isAddress = spec_hex_address and chain = chain_mints and engine = engine_queues
      and g = engine_ready and w = wallet_1 and r = row_used
      and ss = "[Insert ''d'' 3, MarkUsed 9 wallet_1 ''0xreceipt'' ''d'']"]
  have 1: "claim_ethers env_ready spec_hex_address chain_mints 9 (\<lambda>t. t) [row_used] ''d'' wallet_1 =
     (fail_with 404 ''QR not found'', [row_used], [DbGet ''d''])"
    using v [of "''d''"] g wallet_1_hex by simp
  have 2: "claim_ethers env_ready spec_hex_address chain_mints 9 (\<lambda>t. t) [row_used] ''c'' wallet_1 =
     (fail_with 409 ''Already claimed'', [row_used], [DbGet ''c''])"
    using v [of "''c''"] g wallet_1_hex by simp
  have 3: "claim_engine engine_ready engine_queues 9 (\<lambda>t. t) [row_used] ''d'' wallet_1 =
     (fail_with 404 ''QR not found'', [row_used], [DbGet ''d''])"
    using v [of "''d''"] g b engine_ready_ok by simp
  have 4: "claim_engine engine_ready engine_queues 9 (\<lambda>t. t) [row_used] ''c'' wallet_1 =
     (fail_with 409 ''Already claimed'', [row_used], [DbGet ''c''])"
    using v [of "''c''"] g b engine_ready_ok by simp
  have 5: "no_epoch (final [row_used] [Insert ''d'' 3, MarkUsed 9 wallet_1 ''0xreceipt'' ''d''])"
    using v [of "''c''"] ck by blast
  show ?thesis using ne 1 2 3 4 5 by (intro conjI)
qed

lemma settle_Returns:
  "claim_settle (Returns h) now tbl c w =
     (if snd (markUsed tbl now w h c) = 0 then fail_with 409 ''QR just got used'' else success h,
      fst (markUsed tbl now w h c), [Mint w, DbMarkUsed now w h c])"
  by (simp add: claim_settle_def split: prod.splits)

lemma settle_Throws:
  "claim_settle (Throws x) now tbl c w = (fail_with 500 (error_text x), tbl, [Mint w])"
  by (simp add: claim_settle_def)

lemma markUsed_zero: "snd (markUsed tbl t w h i) = 0 \<Longrightarrow> fst (markUsed tbl t w h i) = tbl"
  using markUsed_changes [of tbl t w h i] markUsed_noop [of tbl i t w h] by auto

text \<open>
  Claim C8 (after the mint).  Take a claim that has passed the lookup and whose minter call
  has returned the reference \<open>h\<close>, and let \<open>during\<close> be what other requests did to the table
  meanwhile.  If \<open>markUsed\<close> then reports no change, the answer is status 409
  \<open>QR just got used\<close>, although the minter has been called, and the table is left exactly
  as the other requests made it, so the winner's triple stays.  If \<open>markUsed\<close> reports a
  change, the answer is the success response carrying \<open>h\<close>, and the table is the one
  \<open>markUsed\<close> returns.  This holds for both variants.  The 409 answer has the shape of the
  \<open>Already claimed\<close> answer: the same status and the same fields; the two messages differ.
\<close>

theorem claim_after_mint:
  "(claim_check_ethers isAddress tbl c w = (None, fx) \<and> mintTo e isAddress chain w = Returns h \<and>
      snd (markUsed (during tbl) now w h c) = 0 \<longrightarrow>
        claim_ethers e isAddress chain now during tbl c w =
          (fail_with 409 ''QR just got used'', during tbl, [DbGet c, Mint w, DbMarkUsed now w h c])) \<and>
   (claim_check_ethers isAddress tbl c w = (None, fx) \<and> mintTo e isAddress chain w = Returns h \<and>
      snd (markUsed (during tbl) now w h c) \<noteq> 0 \<longrightarrow>
        claim_ethers e isAddress chain now during tbl c w =
          (success h, fst (markUsed (during tbl) now w h c), [DbGet c, Mint w, DbMarkUsed now w h c])) \<and>
   (claim_check_engine g tbl c w = (None, fx) \<and> engine w = Returns h \<and>
      snd (markUsed (during tbl) now w h c) = 0 \<longrightarrow>
        claim_engine g engine now during tbl c w =
          (fail_with 409 ''QR just got used'', during tbl, [DbGet c, Mint w, DbMarkUsed now w h c])) \<and>
   (claim_check_engine g tbl c w = (None, fx) \<and> engine w = Returns h \<and>
      snd (markUsed (during tbl) now w h c) \<noteq> 0 \<longrightarrow>
        claim_engine g engine now during tbl c w =
          (success h, fst (markUsed (during tbl) now w h c), [DbGet c, Mint w, DbMarkUsed now w h c])) \<and>
   shape (fail_with 409 ''QR just got used'') = shape (fail_with 409 ''Already claimed'') \<and>
   body_txHash (success h) = Some h"
proof -
  have 1: "claim_check_ethers isAddress tbl c w = (None, fx) \<and> mintTo e isAddress chain w = Returns h \<and>
      snd (markUsed (during tbl) now w h c) = 0 \<longrightarrow>
        claim_ethers e isAddress chain now during tbl c w =
          (fail_with 409 ''QR just got used'', during tbl, [DbGet c, Mint w, DbMarkUsed now w h c])"
    using check_effects(1) [of isAddress tbl c w fx] markUsed_zero [of "during tbl" now w h c]
    by (auto simp: claim_ethers_late settle_Returns)
  have 2: "claim_check_ethers isAddress tbl c w = (None, fx) \<and> mintTo e isAddress chain w = Returns h \<and>
      snd (markUsed (during tbl) now w h c) \<noteq> 0 \<longrightarrow>
        claim_ethers e isAddress chain now during tbl c w =
          (success h, fst (markUsed (during tbl) now w h c), [DbGet c, Mint w, DbMarkUsed now w h c])"
    using check_effects(1) [of isAddress tbl c w fx]
    by (auto simp: claim_ethers_late settle_Returns)
  have 3: "claim_check_engine g tbl c w = (None, fx) \<and> engine w = Returns h \<and>
      snd (markUsed (during tbl) now w h c) = 0 \<longrightarrow>
        claim_engine g engine now during tbl c w =
          (fail_with 409 ''QR just got used'', during tbl, [DbGet c, Mint w, DbMarkUsed now w h c])"
    using check_effects(2) [of g tbl c w fx] markUsed_zero [of "during tbl" now w h c]
    by (auto simp: claim_engine_late settle_Returns)
  have 4: "claim_check_engine g tbl c w = (None, fx) \<and> engine w = Returns h \<and>
      snd (markUsed (during tbl) now w h c) \<noteq> 0 \<longrightarrow>
        claim_engine g engine now during tbl c w =
          (success h, fst (markUsed (during tbl) now w h c), [DbGet c, Mint w, DbMarkUsed now w h c])"
    using check_effects(2) [of g tbl c w fx]
    by (auto simp: claim_engine_late settle_Returns)
  have 5: "shape (fail_with 409 ''QR just got used'') = shape (fail_with 409 ''Already claimed'')"
    by (simp add: shape_def fail_with_def)
  have 6: "body_txHash (success h) = Some h" by (simp add: success_def)
  show ?thesis using 1 2 3 4 5 6 by (intro conjI)
qed

lemma check_c_wallet_1:
  "claim_check_ethers spec_hex_address [new_row ''c'' 1] ''c'' wallet_1 = (None, [DbGet ''c''])"
  using wallet_1_hex by (simp add: claim_check_ethers_def getQR_def new_row_def truthy_int_def)

lemma mint_wallet_1: "mintTo env_ready spec_hex_address chain_mints wallet_1 = Returns ''0xreceipt''"
  using wallet_1_hex by (simp add: mintTo_def chainReady_def env_ready_def chain_mints_def)

theorem claim_after_mint_witness:
  "claim_ethers env_ready spec_hex_address chain_mints 9 other_wins [new_row ''c'' 1] ''c'' wallet_1 =
     (fail_with 409 ''QR just got used'', [row_used],
      [DbGet ''c'', Mint wallet_1, DbMarkUsed 9 wallet_1 ''0xreceipt'' ''c'']) \<and>
   claim_ethers env_ready spec_hex_address chain_mints 9 (\<lambda>t. t) [new_row ''c'' 1] ''c'' wallet_1 =
     (success ''0xreceipt'',
      [\<lparr>row_id = ''c'', created_at = 1, used_at = Some 9, used_by = Some wallet_1, tx_hash = Some ''0xreceipt''\<rparr>],
      [DbGet ''c'', Mint wallet_1, DbMarkUsed 9 wallet_1 ''0xreceipt'' ''c''])"
proof -
  have won: "other_wins [new_row ''c'' 1] = [row_used]"
    by (simp add: other_wins_def markUsed_def markUsed_where_def markUsed_set_def new_row_def row_used_def)
  have lost: "snd (markUsed (other_wins [new_row ''c'' 1]) 9 wallet_1 ''0xreceipt'' ''c'') = 0"
    by (simp add: won markUsed_def markUsed_where_def row_used_def)
  have alone: "markUsed [new_row ''c'' 1] 9 wallet_1 ''0xreceipt'' ''c'' =
      ([\<lparr>row_id = ''c'', created_at = 1, used_at = Some 9, used_by = Some wallet_1, tx_hash = Some ''0xreceipt''\<rparr>], 1)"
    by (simp add: markUsed_def markUsed_where_def markUsed_set_def new_row_def)
  have 1: "claim_ethers env_ready spec_hex_address chain_mints 9 other_wins [new_row ''c'' 1] ''c'' wallet_1 =
     (fail_with 409 ''QR just got used'', [row_used],
      [DbGet ''c'', Mint wallet_1, DbMarkUsed 9 wallet_1 ''0xreceipt'' ''c''])"
    using claim_after_mint [of spec_hex_address "[new_row ''c'' 1]" "''c''" wallet_1 "[DbGet ''c'']"
        env_ready chain_mints "''0xreceipt''" other_wins 9]
      check_c_wallet_1 mint_wallet_1 lost won by simp
  have 2: "claim_ethers env_ready spec_hex_address chain_mints 9 (\<lambda>t. t) [new_row ''c'' 1] ''c'' wallet_1 =
     (success ''0xreceipt'',
      [\<lparr>row_id = ''c'', created_at = 1, used_at = Some 9, used_by = Some wallet_1, tx_hash = Some ''0xreceipt''\<rparr>],
      [DbGet ''c'', Mint wallet_1, DbMarkUsed 9 wallet_1 ''0xreceipt'' ''c''])"
    using claim_after_mint [of spec_hex_address "[new_row ''c'' 1]" "''c''" wallet_1 "[DbGet ''c'']"
        env_ready chain_mints "''0xreceipt''" "\<lambda>t. t" 9]
      check_c_wallet_1 mint_wallet_1 alone by simp
  show ?thesis using 1 2 by (intro conjI)
qed

lemma error_text_new_Error: "m \<noteq> [] \<Longrightarrow> error_text (new_Error m) = m"
  by (simp add: error_text_def new_Error_def)

lemma settle_store_None: "claim_settle_store minted None now tbl c w = claim_settle minted now tbl c w"
  by (simp add: claim_settle_store_def claim_settle_def split: outcome.splits)

lemma settle_store_Throws:
  "claim_settle_store (Throws x) mf now tbl c w = (fail_with 500 (error_text x), tbl, [Mint w])"
  by (simp add: claim_settle_store_def)

lemma settle_store_fault:
  "claim_settle_store (Returns h) (Some x) now tbl c w =
     (fail_with 500 (error_text x), tbl, [Mint w, DbMarkUsed now w h c])"
  by (simp add: claim_settle_store_def)

lemma settle_store_effects:
  "list_all (\<lambda>f. \<not> is_Log f) (snd (snd (claim_settle_store minted mf now tbl c w)))"
  by (simp add: claim_settle_store_def split: outcome.splits option.splits prod.splits)

lemma ethers_store_checked:
  "claim_ethers_store None mf e isAddress chain now during tbl c w =
     (case claim_check_ethers isAddress tbl c w of
        (Some r, fx) \<Rightarrow> (Responds r, tbl, fx)
      | (None, fx) \<Rightarrow>
          (Responds (fst (claim_settle_store (mintTo e isAddress chain w) mf now (during tbl) c w)),
           fst (snd (claim_settle_store (mintTo e isAddress chain w) mf now (during tbl) c w)),
           fx @ snd (snd (claim_settle_store (mintTo e isAddress chain w) mf now (during tbl) c w))))"
  by (simp add: claim_ethers_store_def claim_check_ethers_def split: option.splits prod.splits)

lemma engine_store_checked:
  "claim_engine_store None mf g engine now during tbl c w =
     (case claim_check_engine g tbl c w of
        (Some r, fx) \<Rightarrow> (Responds r, tbl, fx)
      | (None, fx) \<Rightarrow>
          (Responds (fst (claim_settle_store (engine w) mf now (during tbl) c w)),
           fst (snd (claim_settle_store (engine w) mf now (during tbl) c w)),
           fx @ snd (snd (claim_settle_store (engine w) mf now (during tbl) c w))))"
  by (simp add: claim_engine_store_def claim_check_engine_def split: option.splits prod.splits)

lemma ethers_store_no_fault:
  "claim_ethers_store None None e isAddress chain now during tbl c w =
     (Responds (fst (claim_ethers e isAddress chain now during tbl c w)),
      snd (claim_ethers e isAddress chain now during tbl c w))"
  by (simp add: ethers_store_checked settle_store_None claim_ethers_def split: prod.splits option.splits)

lemma engine_store_no_fault:
  "claim_engine_store None None g engine now during tbl c w =
     (Responds (fst (claim_engine g engine now during tbl c w)),
      snd (claim_engine g engine now during tbl c w))"
  by (simp add: engine_store_checked settle_store_None claim_engine_def split: prod.splits option.splits)

lemma ethers_store_no_log:
  "list_all (\<lambda>f. \<not> is_Log f) (snd (snd (claim_ethers_store gf mf e isAddress chain now during tbl c w)))"
  using settle_store_effects [of "mintTo e isAddress chain w" mf now "during tbl" c w]
  by (auto simp: claim_ethers_store_def split: option.splits prod.splits)

lemma engine_store_no_log:
  "list_all (\<lambda>f. \<not> is_Log f) (snd (snd (claim_engine_store gf mf g engine now during tbl c w)))"
  using settle_store_effects [of "engine w" mf now "during tbl" c w]
  by (auto simp: claim_engine_store_def split: option.splits prod.splits)

lemma mintTo_secrets:
  "chainReady e \<Longrightarrow> chainReady e' \<Longrightarrow> MINT_METHOD e = MINT_METHOD e' \<Longrightarrow>
     mintTo e isAddress chain w = mintTo e' isAddress chain w"
  by (simp add: mintTo_def)

lemma ethers_store_secrets:
  "chainReady e \<Longrightarrow> chainReady e' \<Longrightarrow> MINT_METHOD e = MINT_METHOD e' \<Longrightarrow>
     claim_ethers_store gf mf e isAddress chain now during tbl c w =
     claim_ethers_store gf mf e' isAddress chain now during tbl c w"
  using mintTo_secrets [of e e' isAddress chain w]
  by (auto simp: claim_ethers_store_def split: option.splits)

lemma engine_store_secrets:
  "envOk g \<Longrightarrow> envOk g' \<Longrightarrow>
     claim_engine_store gf mf g engine now during tbl c w =
     claim_engine_store gf mf g' engine now during tbl c w"
  by (auto simp: claim_engine_store_def split: option.splits)

text \<open>
  Claim C9 (what a failure shows the caller), as the code has it.  A failure inside the
  \<open>try\<close> block, whether the minter throws or \<open>markUsed.run\<close> throws because the store is
  unavailable, is answered by either variant with status 500 and the thrown value's own
  message, unchanged (\<open>String(e)\<close> when the message is missing or empty); the table is left
  as it was.  A failure of the lookup is thrown before the \<open>try\<close> block: the handler sends
  no response.  No handler writes a line to the log, whatever happens.  The messages
  \<open>mintTo\<close> makes itself are the fixed text naming the three variables when one of them is
  unset, the fixed text \<open>Invalid wallet address\<close>, and a text that quotes the value of
  \<open>MINT_METHOD\<close> when it is none of the three known methods; what the library throws is
  passed on as it is.  The handlers put no credential, endpoint or contract address in a
  message themselves: for a given behaviour of the library and the store, two
  configurations that are both complete (with the same \<open>MINT_METHOD\<close>) give the same answer.
\<close>

theorem claim_minter_failure:
  "(claim_check_ethers isAddress tbl c w = (None, fx) \<and> mintTo e isAddress chain w = Throws x \<longrightarrow>
      claim_ethers_store None mf e isAddress chain now during tbl c w =
        (Responds (fail_with 500 (error_text x)), during tbl, [DbGet c, Mint w])) \<and>
   (claim_check_engine g tbl c w = (None, fx) \<and> engine w = Throws x \<longrightarrow>
      claim_engine_store None mf g engine now during tbl c w =
        (Responds (fail_with 500 (error_text x)), during tbl, [DbGet c, Mint w])) \<and>
   (claim_check_ethers isAddress tbl c w = (None, fx) \<and> mintTo e isAddress chain w = Returns h \<longrightarrow>
      claim_ethers_store None (Some x) e isAddress chain now during tbl c w =
        (Responds (fail_with 500 (error_text x)), during tbl, [DbGet c, Mint w, DbMarkUsed now w h c])) \<and>
   (claim_check_engine g tbl c w = (None, fx) \<and> engine w = Returns h \<longrightarrow>
      claim_engine_store None (Some x) g engine now during tbl c w =
        (Responds (fail_with 500 (error_text x)), during tbl, [DbGet c, Mint w, DbMarkUsed now w h c])) \<and>
   (c \<noteq> [] \<and> isAddress w \<longrightarrow>
      claim_ethers_store (Some x) mf e isAddress chain now during tbl c w = (Rejects x, tbl, [DbGet c])) \<and>
   (envOk g \<and> c \<noteq> [] \<and> \<not> bad_wallet w \<longrightarrow>
      claim_engine_store (Some x) mf g engine now during tbl c w = (Rejects x, tbl, [DbGet c])) \<and>
   claim_ethers_store None None e isAddress chain now during tbl c w =
     (Responds (fst (claim_ethers e isAddress chain now during tbl c w)),
      snd (claim_ethers e isAddress chain now during tbl c w)) \<and>
   claim_engine_store None None g engine now during tbl c w =
     (Responds (fst (claim_engine g engine now during tbl c w)),
      snd (claim_engine g engine now during tbl c w)) \<and>
   list_all (\<lambda>f. \<not> is_Log f) (snd (snd (claim_ethers_store gf mf e isAddress chain now during tbl c w))) \<and>
   list_all (\<lambda>f. \<not> is_Log f) (snd (snd (claim_engine_store gf mf g engine now during tbl c w))) \<and>
   (message x = Some m \<and> m \<noteq> [] \<longrightarrow> error_text x = m) \<and>
   (message x = None \<or> message x = Some [] \<longrightarrow> error_text x = as_String x) \<and>
   (\<not> chainReady e \<longrightarrow>
      mintTo e isAddress chain w = Throws (new_Error ''Missing RPC_URL / PRIVATE_KEY / NFT_CONTRACT_ADDRESS'')) \<and>
   (chainReady e \<and> \<not> isAddress w \<longrightarrow>
      mintTo e isAddress chain w = Throws (new_Error ''Invalid wallet address'')) \<and>
   (chainReady e \<and> isAddress w \<and> MINT_METHOD e \<notin> {''claimTo'', ''safeMint'', ''mint''} \<longrightarrow>
      mintTo e isAddress chain w = Throws (new_Error (''Unknown MINT_METHOD: '' @ MINT_METHOD e))) \<and>
   (chainReady e \<and> isAddress w \<and> MINT_METHOD e \<in> {''claimTo'', ''safeMint'', ''mint''} \<and>
      chain (MINT_METHOD e) w = Throws x \<longrightarrow> mintTo e isAddress chain w = Throws x) \<and>
   (chainReady e \<and> chainReady e' \<and> MINT_METHOD e = MINT_METHOD e' \<longrightarrow>
      claim_ethers_store gf mf e isAddress chain now during tbl c w =
      claim_ethers_store gf mf e' isAddress chain now during tbl c w) \<and>
   (envOk g \<and> envOk g' \<longrightarrow>
      claim_engine_store gf mf g engine now during tbl c w =
      claim_engine_store gf mf g' engine now during tbl c w)"
proof -
  have 1: "claim_check_ethers isAddress tbl c w = (None, fx) \<and> mintTo e isAddress chain w = Throws x \<longrightarrow>
      claim_ethers_store None mf e isAddress chain now during tbl c w =
        (Responds (fail_with 500 (error_text x)), during tbl, [DbGet c, Mint w])"
    using check_effects(1) [of isAddress tbl c w fx]
    by (auto simp: ethers_store_checked settle_store_Throws)
  have 2: "claim_check_engine g tbl c w = (None, fx) \<and> engine w = Throws x \<longrightarrow>
      claim_engine_store None mf g engine now during tbl c w =
        (Responds (fail_with 500 (error_text x)), during tbl, [DbGet c, Mint w])"
    using check_effects(2) [of g tbl c w fx]
    by (auto simp: engine_store_checked settle_store_Throws)
  have 3: "claim_check_ethers isAddress tbl c w = (None, fx) \<and> mintTo e isAddress chain w = Returns h \<longrightarrow>
      claim_ethers_store None (Some x) e isAddress chain now during tbl c w =
        (Responds (fail_with 500 (error_text x)), during tbl, [DbGet c, Mint w, DbMarkUsed now w h c])"
    using check_effects(1) [of isAddress tbl c w fx]
    by (auto simp: ethers_store_checked settle_store_fault)
  have 4: "claim_check_engine g tbl c w = (None, fx) \<and> engine w = Returns h \<longrightarrow>
      claim_engine_store None (Some x) g engine now during tbl c w =
        (Responds (fail_with 500 (error_text x)), during tbl, [DbGet c, Mint w, DbMarkUsed now w h c])"
    using check_effects(2) [of g tbl c w fx]
    by (auto simp: engine_store_checked settle_store_fault)
  have 5: "c \<noteq> [] \<and> isAddress w \<longrightarrow>
      claim_ethers_store (Some x) mf e isAddress chain now during tbl c w = (Rejects x, tbl, [DbGet c])"
    by (simp add: claim_ethers_store_def)
  have 6: "envOk g \<and> c \<noteq> [] \<and> \<not> bad_wallet w \<longrightarrow>
      claim_engine_store (Some x) mf g engine now during tbl c w = (Rejects x, tbl, [DbGet c])"
    by (simp add: claim_engine_store_def)
  have 7: "message x = Some m \<and> m \<noteq> [] \<longrightarrow> error_text x = m"
    by (simp add: error_text_def)
  have 8: "message x = None \<or> message x = Some [] \<longrightarrow> error_text x = as_String x"
    by (auto simp: error_text_def)
  have 9: "\<not> chainReady e \<longrightarrow>
      mintTo e isAddress chain w = Throws (new_Error ''Missing RPC_URL / PRIVATE_KEY / NFT_CONTRACT_ADDRESS'')"
    by (simp add: mintTo_def)
  have 10: "chainReady e \<and> \<not> isAddress w \<longrightarrow>
      mintTo e isAddress chain w = Throws (new_Error ''Invalid wallet address'')"
    by (simp add: mintTo_def)
  have 11: "chainReady e \<and> isAddress w \<and> MINT_METHOD e \<notin> {''claimTo'', ''safeMint'', ''mint''} \<longrightarrow>
      mintTo e isAddress chain w = Throws (new_Error (''Unknown MINT_METHOD: '' @ MINT_METHOD e))"
    by (simp add: mintTo_def)
  have 12: "chainReady e \<and> isAddress w \<and> MINT_METHOD e \<in> {''claimTo'', ''safeMint'', ''mint''} \<and>
      chain (MINT_METHOD e) w = Throws x \<longrightarrow> mintTo e isAddress chain w = Throws x"
    by (auto simp: mintTo_def)
  have 13: "chainReady e \<and> chainReady e' \<and> MINT_METHOD e = MINT_METHOD e' \<longrightarrow>
      claim_ethers_store gf mf e isAddress chain now during tbl c w =
      claim_ethers_store gf mf e' isAddress chain now during tbl c w"
    using ethers_store_secrets by blast
  have 14: "envOk g \<and> envOk g' \<longrightarrow>
      claim_engine_store gf mf g engine now during tbl c w =
      claim_engine_store gf mf g' engine now during tbl c w"
    using engine_store_secrets by blast
  show ?thesis
    using 1 2 3 4 5 6 ethers_store_no_fault engine_store_no_fault ethers_store_no_log engine_store_no_log
      7 8 9 10 11 12 13 14
    by (intro conjI)
qed

lemma env_ready_chainReady: "chainReady env_ready"
  by (simp add: chainReady_def env_ready_def)

text \<open>
  The claim as stated fails: the message is not a generic one, and the detail goes to the
  caller, not to a log.  A wrong \<open>MINT_METHOD\<close> is quoted back to the caller, an unset
  credential is answered with another text, and the handler's effects contain no log line.
\<close>

theorem claim_minter_failure_counterexample:
  "claim_ethers (env_ready\<lparr>MINT_METHOD := ''foo''\<rparr>) spec_hex_address chain_mints 9 (\<lambda>t. t)
      [new_row ''c'' 1] ''c'' wallet_1 =
     (fail_with 500 ''Unknown MINT_METHOD: foo'', [new_row ''c'' 1], [DbGet ''c'', Mint wallet_1]) \<and>
   claim_ethers (env_ready\<lparr>PRIVATE_KEY := []\<rparr>) spec_hex_address chain_mints 9 (\<lambda>t. t)
      [new_row ''c'' 1] ''c'' wallet_1 =
     (fail_with 500 ''Missing RPC_URL / PRIVATE_KEY / NFT_CONTRACT_ADDRESS'', [new_row ''c'' 1],
      [DbGet ''c'', Mint wallet_1]) \<and>
   ''Unknown MINT_METHOD: foo'' \<noteq> ''Missing RPC_URL / PRIVATE_KEY / NFT_CONTRACT_ADDRESS'' \<and>
   list_all (\<lambda>f. \<not> is_Log f) [DbGet ''c'', Mint wallet_1]"
  using wallet_1_hex check_c_wallet_1
  by (simp add: claim_ethers_def settle_Throws error_text_new_Error mintTo_def chainReady_def env_ready_def)

theorem claim_minter_failure_witness:
  "claim_ethers_store None None env_ready spec_hex_address chain_reverts 9 (\<lambda>t. t)
      [new_row ''c'' 1] ''c'' wallet_1 =
     (Responds (fail_with 500 ''execution reverted''), [new_row ''c'' 1], [DbGet ''c'', Mint wallet_1]) \<and>
   claim_ethers_store None (Some db_locked) env_ready spec_hex_address chain_mints 9 (\<lambda>t. t)
      [new_row ''c'' 1] ''c'' wallet_1 =
     (Responds (fail_with 500 ''database is locked''), [new_row ''c'' 1],
      [DbGet ''c'', Mint wallet_1, DbMarkUsed 9 wallet_1 ''0xreceipt'' ''c'']) \<and>
   claim_ethers_store (Some db_locked) None env_ready spec_hex_address chain_mints 9 (\<lambda>t. t)
      [new_row ''c'' 1] ''c'' wallet_1 = (Rejects db_locked, [new_row ''c'' 1], [DbGet ''c'']) \<and>
   mintTo (env_ready\<lparr>PRIVATE_KEY := []\<rparr>) spec_hex_address chain_mints wallet_1 =
     Throws (new_Error ''Missing RPC_URL / PRIVATE_KEY / NFT_CONTRACT_ADDRESS'') \<and>
   mintTo env_ready spec_hex_address chain_mints wallet_z = Throws (new_Error ''Invalid wallet address'') \<and>
   claim_ethers_store None None (env_ready\<lparr>PRIVATE_KEY := ''another key''\<rparr>) spec_hex_address chain_reverts 9
      (\<lambda>t. t) [new_row ''c'' 1] ''c'' wallet_1 =
   claim_ethers_store None None env_ready spec_hex_address chain_reverts 9 (\<lambda>t. t)
      [new_row ''c'' 1] ''c'' wallet_1"
proof -
  have m: "MINT_METHOD env_ready = ''claimTo''"
      "chain_reverts (MINT_METHOD env_ready) wallet_1 = Throws (new_Error ''execution reverted'')"
    by (simp_all add: env_ready_def chain_reverts_def)
  have et: "error_text (new_Error ''execution reverted'') = ''execution reverted''"
      "error_text db_locked = ''database is locked''"
    by (simp_all add: error_text_def new_Error_def db_locked_def)
  have c: "''c'' \<noteq> []" by simp
  have thrown: "mintTo env_ready spec_hex_address chain_reverts wallet_1 =
      Throws (new_Error ''execution reverted'')"
    using claim_minter_failure [where e = env_ready and isAddress = spec_hex_address
        and chain = chain_reverts and w = wallet_1 and x = "new_Error ''execution reverted''"]
      env_ready_chainReady wallet_1_hex m by simp
  have 1: "claim_ethers_store None None env_ready spec_hex_address chain_reverts 9 (\<lambda>t. t)
      [new_row ''c'' 1] ''c'' wallet_1 =
     (Responds (fail_with 500 ''execution reverted''), [new_row ''c'' 1], [DbGet ''c'', Mint wallet_1])"
    using claim_minter_failure [where isAddress = spec_hex_address and tbl = "[new_row ''c'' 1]"
        and c = "''c''" and w = wallet_1 and fx = "[DbGet ''c'']" and e = env_ready
        and chain = chain_reverts and x = "new_Error ''execution reverted''" and mf = None
        and now = 9 and during = "\<lambda>t. t"]
      check_c_wallet_1 thrown et by simp
  have 2: "claim_ethers_store None (Some db_locked) env_ready spec_hex_address chain_mints 9 (\<lambda>t. t)
      [new_row ''c'' 1] ''c'' wallet_1 =
     (Responds (fail_with 500 ''database is locked''), [new_row ''c'' 1],
      [DbGet ''c'', Mint wallet_1, DbMarkUsed 9 wallet_1 ''0xreceipt'' ''c''])"
    using claim_minter_failure [where isAddress = spec_hex_address and tbl = "[new_row ''c'' 1]"
        and c = "''c''" and w = wallet_1 and fx = "[DbGet ''c'']" and e = env_ready
        and chain = chain_mints and x = db_locked and h = "''0xreceipt''"
        and now = 9 and during = "\<lambda>t. t"]
      check_c_wallet_1 mint_wallet_1 et by simp
  have 3: "claim_ethers_store (Some db_locked) None env_ready spec_hex_address chain_mints 9 (\<lambda>t. t)
      [new_row ''c'' 1] ''c'' wallet_1 = (Rejects db_locked, [new_row ''c'' 1], [DbGet ''c''])"
    using claim_minter_failure [where isAddress = spec_hex_address and tbl = "[new_row ''c'' 1]"
        and c = "''c''" and w = wallet_1 and e = env_ready and chain = chain_mints and x = db_locked
        and mf = None and now = 9 and during = "\<lambda>t. t"]
      wallet_1_hex c by simp
  have "\<not> chainReady (env_ready\<lparr>PRIVATE_KEY := []\<rparr>)" by (simp add: chainReady_def)
  then have 4: "mintTo (env_ready\<lparr>PRIVATE_KEY := []\<rparr>) spec_hex_address chain_mints wallet_1 =
     Throws (new_Error ''Missing RPC_URL / PRIVATE_KEY / NFT_CONTRACT_ADDRESS'')"
    using claim_minter_failure [where e = "env_ready\<lparr>PRIVATE_KEY := []\<rparr>" and isAddress = spec_hex_address
        and chain = chain_mints and w = wallet_1] by simp
  have 5: "mintTo env_ready spec_hex_address chain_mints wallet_z = Throws (new_Error ''Invalid wallet address'')"
    using claim_minter_failure [where e = env_ready and isAddress = spec_hex_address
        and chain = chain_mints and w = wallet_z] env_ready_chainReady wallet_z_not_hex by simp
  have k: "chainReady (env_ready\<lparr>PRIVATE_KEY := ''another key''\<rparr>)"
      "MINT_METHOD (env_ready\<lparr>PRIVATE_KEY := ''another key''\<rparr>) = MINT_METHOD env_ready"
    by (simp_all add: chainReady_def env_ready_def)
  have 6: "claim_ethers_store None None (env_ready\<lparr>PRIVATE_KEY := ''another key''\<rparr>) spec_hex_address
      chain_reverts 9 (\<lambda>t. t) [new_row ''c'' 1] ''c'' wallet_1 =
     claim_ethers_store None None env_ready spec_hex_address chain_reverts 9 (\<lambda>t. t)
      [new_row ''c'' 1] ''c'' wallet_1"
    using claim_minter_failure [where e = "env_ready\<lparr>PRIVATE_KEY := ''another key''\<rparr>" and e' = env_ready
        and gf = None and mf = None and isAddress = spec_hex_address and chain = chain_reverts
        and now = 9 and during = "\<lambda>t. t" and tbl = "[new_row ''c'' 1]" and c = "''c''" and w = wallet_1,
        THEN conjunct2, THEN conjunct2, THEN conjunct2, THEN conjunct2, THEN conjunct2, THEN conjunct2,
        THEN conjunct2, THEN conjunct2, THEN conjunct2, THEN conjunct2, THEN conjunct2, THEN conjunct2,
        THEN conjunct2, THEN conjunct2, THEN conjunct2, THEN conjunct2, THEN conjunct1]
      k env_ready_chainReady by simp
  show ?thesis using 1 2 3 4 5 6 by (intro conjI)
qed

end
